theory Spec2Isabelle
  imports Main "HOL-Library.Word"
begin

unbundle bit_operations_syntax

section \<open>Data model of package rtp\<close>

text \<open>
  A Go \<^verbatim>\<open>byte\<close> is an 8-bit word, \<^verbatim>\<open>uint16\<close> and \<^verbatim>\<open>uint32\<close> are 16- and 32-bit
  words. Offsets into the buffer are Go \<^verbatim>\<open>int\<close>s that start at 12 and only grow by
  amounts bounded by the buffer length, so they are natural numbers here; the data length
  of a command is an \<^verbatim>\<open>int\<close> because the command table holds \<open>-1\<close> for System-Exclusive.
  A \<^verbatim>\<open>time.Time\<close> is an opaque instant and a \<^verbatim>\<open>time.Duration\<close> a number of nanoseconds.
\<close>

type_synonym byte = "8 word"
type_synonym Time = int
type_synonym Duration = int

text \<open>A call either returns or stops with a run-time panic (index or slice out of range).\<close>

datatype 'a outcome = Returns 'a | Panics

text \<open>The three \<^verbatim>\<open>fmt.Errorf\<close> values of the package, with the number each one formats.\<close>

datatype error =
    BufferTooSmall nat
  | PayloadTypeMismatch byte
  | NotEnoughBufferData int

definition version2Bit :: byte where "version2Bit = 0x80"
definition extensionBit :: byte where "extensionBit = 0x10"
definition paddingBit :: byte where "paddingBit = 0x20"
definition markerBit :: byte where "markerBit = 0x80"
definition ccMask :: byte where "ccMask = 0x0f"
definition ptMask :: byte where "ptMask = 0x7f"

definition minimumBufferLength :: nat where "minimumBufferLength = 12"

definition firstByte :: byte where "firstByte = version2Bit OR 0x00 OR 0x00 OR 0x00"
definition payloadType :: byte where "payloadType = 0x61"
definition secondByte :: byte where "secondByte = payloadType"

definition deltaTimeMask :: "32 word" where "deltaTimeMask = 0x7f"
definition deltaTimeHasNext :: byte where "deltaTimeHasNext = 0x80"

definition emtpyHeader :: byte where "emtpyHeader = 0x00"
definition bigHeaderBit :: byte where "bigHeaderBit = 0x80"
definition journalBit :: byte where "journalBit = 0x40"
definition zeroDeltaBit :: byte where "zeroDeltaBit = 0x20"
definition phantomBit :: byte where "phantomBit = 0x10"
definition lenMask :: byte where "lenMask = 0x0f"

record RTPMIDIHeader =
  Version :: byte
  Padding :: bool
  Extension :: bool
  CSRCCount :: byte
  Marker :: byte
  PayloadType :: byte

record MIDICommand =
  DeltaTime :: Duration
  Payload :: "byte list"

record MIDICommands =
  Timestamp :: Time
  Commands :: "MIDICommand list"

record MIDIMessage =
  SequenceNumber :: "16 word"
  SSRC :: "32 word"
  MsgCommands :: MIDICommands

record MIDIListHeader =
  bigHeader :: bool
  hasJournal :: bool
  preceedingDeltaTime :: bool
  P :: bool
  Len :: "16 word"

text \<open>The zero value of \<^verbatim>\<open>time.Time\<close>, and \<^verbatim>\<open>time.Millisecond\<close> in nanoseconds.\<close>

definition zeroTime :: Time where "zeroTime = 0"
definition Millisecond :: Duration where "Millisecond = 1000000"

section \<open>Package midi: the command table\<close>

record commandInfo =
  info_dataLength :: int
  info_name :: string

definition commandsInfos :: "byte \<rightharpoonup> commandInfo" where
  "commandsInfos = map_of
     [(0x80, \<lparr>info_dataLength = 2, info_name = ''noteOff''\<rparr>),
      (0x90, \<lparr>info_dataLength = 2, info_name = ''noteOn''\<rparr>),
      (0xa0, \<lparr>info_dataLength = 2, info_name = ''polyphonicAftertouch''\<rparr>),
      (0xb0, \<lparr>info_dataLength = 2, info_name = ''controlChange''\<rparr>),
      (0xc0, \<lparr>info_dataLength = 1, info_name = ''programChange''\<rparr>),
      (0xd0, \<lparr>info_dataLength = 1, info_name = ''channelAftertouch''\<rparr>),
      (0xe0, \<lparr>info_dataLength = 2, info_name = ''pitchBend''\<rparr>),
      (0xf0, \<lparr>info_dataLength = -1, info_name = ''systemExclusive''\<rparr>),
      (0xf1, \<lparr>info_dataLength = 1, info_name = ''quarterFrame''\<rparr>),
      (0xf2, \<lparr>info_dataLength = 2, info_name = ''songPosition''\<rparr>),
      (0xf3, \<lparr>info_dataLength = 1, info_name = ''songSelect''\<rparr>),
      (0xf6, \<lparr>info_dataLength = 0, info_name = ''tuneRequest''\<rparr>),
      (0xf8, \<lparr>info_dataLength = 0, info_name = ''clock''\<rparr>),
      (0xfa, \<lparr>info_dataLength = 0, info_name = ''start''\<rparr>),
      (0xfb, \<lparr>info_dataLength = 0, info_name = ''continue''\<rparr>),
      (0xfc, \<lparr>info_dataLength = 0, info_name = ''stop''\<rparr>),
      (0xfe, \<lparr>info_dataLength = 0, info_name = ''activeSensing''\<rparr>),
      (0xff, \<lparr>info_dataLength = 0, info_name = ''reset''\<rparr>)]"

definition GetCommandInfo :: "byte \<Rightarrow> commandInfo option" where
  "GetCommandInfo command =
     (case commandsInfos command of
        Some info \<Rightarrow> Some info
      | None \<Rightarrow>
          (case commandsInfos (command AND 0xf0) of
             Some info \<Rightarrow> Some info
           | None \<Rightarrow> None))"

definition GetDataLength :: "byte \<Rightarrow> int" where
  "GetDataLength command =
     (case GetCommandInfo command of
        Some info \<Rightarrow> info_dataLength info
      | None \<Rightarrow> 0)"

section \<open>Decoding\<close>

definition Valid :: "RTPMIDIHeader \<Rightarrow> error option" where
  "Valid h =
     (if PayloadType h \<noteq> payloadType then Some (PayloadTypeMismatch (PayloadType h))
      else None)"

definition HasMIDIData :: "RTPMIDIHeader \<Rightarrow> bool" where
  "HasMIDIData h = (Marker h > 0)"

text \<open>\<^verbatim>\<open>binary.BigEndian.Uint16\<close> and \<^verbatim>\<open>Uint32\<close> of a slice of two, respectively four, bytes.\<close>

definition Uint16 :: "byte list \<Rightarrow> 16 word" where
  "Uint16 b = ucast (b ! 1) OR push_bit 8 (ucast (b ! 0))"

definition Uint32 :: "byte list \<Rightarrow> 32 word" where
  "Uint32 b =
     ucast (b ! 3) OR push_bit 8 (ucast (b ! 2)) OR push_bit 16 (ucast (b ! 1))
       OR push_bit 24 (ucast (b ! 0))"

text \<open>
  The delta-time loop \<^verbatim>\<open>for k := 0; k < 4; k++\<close> of \<^verbatim>\<open>parseMIDIList\<close>; the first
  argument counts the rounds that are left. Reading \<^verbatim>\<open>buffer[offset]\<close> at or past the
  length of the buffer panics.
\<close>

fun decodeDeltaTime :: "nat \<Rightarrow> byte list \<Rightarrow> nat \<Rightarrow> 32 word \<Rightarrow> (32 word \<times> nat) outcome" where
  "decodeDeltaTime 0 buffer offset deltaTime = Returns (deltaTime, offset)"
| "decodeDeltaTime (Suc k) buffer offset deltaTime =
     (if length buffer \<le> offset then Panics
      else
        let currentOctet = buffer ! offset;
            deltaTime' = push_bit 7 deltaTime OR (ucast currentOctet AND deltaTimeMask)
        in if currentOctet AND deltaTimeHasNext = 0 then Returns (deltaTime', offset + 1)
           else decodeDeltaTime k buffer (offset + 1) deltaTime')"

text \<open>
  The System-Exclusive scan: \<^verbatim>\<open>dataLength\<close> grows while the octet at
  \<^verbatim>\<open>offset+dataLength\<close> is inside the buffer and has its high bit clear.
\<close>

function sysexScan :: "byte list \<Rightarrow> nat \<Rightarrow> nat \<Rightarrow> nat" where
  "sysexScan buffer offset dataLength =
     (if length buffer > offset + dataLength
         \<and> \<not> (buffer ! (offset + dataLength) AND 0x80 > 0x00)
      then sysexScan buffer offset (dataLength + 1)
      else dataLength)"
  by pat_completeness auto
termination
  by (relation "measure (\<lambda>(buffer, offset, dataLength). length buffer - (offset + dataLength))") auto

text \<open>
  After the scan \<^verbatim>\<open>buffer[offset+dataLength]\<close> is read without a length check: it panics
  when the scan stopped at the end of the buffer. A terminator other than \<open>0xf7\<close> is
  left out of the count.
\<close>

definition sysexDataLength :: "byte list \<Rightarrow> nat \<Rightarrow> int outcome" where
  "sysexDataLength buffer offset =
     (let dataLength = int (sysexScan buffer offset 0)
      in if length buffer \<le> offset + sysexScan buffer offset 0 then Panics
         else
           let dataLength' =
                 (if buffer ! (offset + sysexScan buffer offset 0) \<noteq> 0xf7 then dataLength - 1
                  else dataLength)
           in Returns (dataLength' + 1))"

record parse_state =
  st_offset :: nat
  st_commands :: "MIDICommand list"
  st_lastStatusByte :: byte

datatype iteration =
    Continue parse_state
  | Return "MIDICommand list \<times> error option"
  | IterationPanics

text \<open>
  One round of the loop \<^verbatim>\<open>for offset < end\<close> of \<^verbatim>\<open>parseMIDIList\<close>. The flag is
  \<^verbatim>\<open>header.preceedingDeltaTime\<close>. The round starts with the delta-time, read only
  under the condition \<^verbatim>\<open>len(commands) > 0 || header.preceedingDeltaTime\<close>; it yields
  the value of \<^verbatim>\<open>deltaTime\<close> and the offset after it.
\<close>

definition readDeltaTime :: "byte list \<Rightarrow> bool \<Rightarrow> parse_state \<Rightarrow> (32 word \<times> nat) outcome" where
  "readDeltaTime buffer Z st =
     (if length (st_commands st) > 0 \<or> Z then decodeDeltaTime 4 buffer (st_offset st) 0
      else Returns (0, st_offset st))"

definition parseMIDIList_body :: "byte list \<Rightarrow> bool \<Rightarrow> parse_state \<Rightarrow> iteration" where
  "parseMIDIList_body buffer Z st =
     (case readDeltaTime buffer Z st of
        Panics \<Rightarrow> IterationPanics
      | Returns (deltaTime, offset1) \<Rightarrow>
          if length buffer \<le> offset1 then IterationPanics
          else
            let hasOwnStatusByte = (buffer ! offset1 AND 0x80 = 0x80);
                lastStatusByte' = (if hasOwnStatusByte then buffer ! offset1 else st_lastStatusByte st);
                offset2 = (if hasOwnStatusByte then offset1 + 1 else offset1);
                statusByte = (if hasOwnStatusByte then buffer ! offset1 else st_lastStatusByte st)
            in (case (if statusByte = 0xf0 then sysexDataLength buffer offset2
                      else Returns (GetDataLength statusByte)) of
                  Panics \<Rightarrow> IterationPanics
                | Returns dataLength \<Rightarrow>
                    if int (length buffer) < int offset2 + dataLength
                    then Return (st_commands st, Some (NotEnoughBufferData dataLength))
                    else
                      let payload =
                            (if dataLength > 0
                             then [statusByte] @ take (nat dataLength) (drop offset2 buffer)
                             else [statusByte]);
                          offset3 = (if dataLength > 0 then offset2 + nat dataLength else offset2);
                          command = \<lparr>DeltaTime = Millisecond * uint deltaTime, Payload = payload\<rparr>
                      in if \<not> (payload ! 0 = 0xf0 \<and> payload ! (length payload - 1) \<noteq> 0xf7)
                         then Continue \<lparr>st_offset = offset3,
                                         st_commands = st_commands st @ [command],
                                         st_lastStatusByte = lastStatusByte'\<rparr>
                         else Continue \<lparr>st_offset = offset3,
                                         st_commands = st_commands st,
                                         st_lastStatusByte = lastStatusByte'\<rparr>))"

function parseMIDIList_loop ::
  "byte list \<Rightarrow> nat \<Rightarrow> bool \<Rightarrow> parse_state \<Rightarrow> (MIDICommand list \<times> error option) outcome" where
  "parseMIDIList_loop buffer list_end Z st =
     (if st_offset st < list_end
      then (case parseMIDIList_body buffer Z st of
              Continue st' \<Rightarrow> parseMIDIList_loop buffer list_end Z st'
            | Return r \<Rightarrow> Returns r
            | IterationPanics \<Rightarrow> Panics)
      else Returns (st_commands st, None))"
  by pat_completeness auto

text \<open>
  The quantity that shrinks with every round: twice the distance to the end of the list,
  plus one while no delta-time is read (no command appended yet and the flag clear).
\<close>

definition loop_measure :: "nat \<Rightarrow> bool \<Rightarrow> parse_state \<Rightarrow> nat" where
  "loop_measure list_end Z st =
     2 * (list_end - st_offset st) + (if st_commands st = [] \<and> \<not> Z then 1 else 0)"

definition parseMIDIList ::
  "byte list \<Rightarrow> nat \<Rightarrow> MIDIListHeader \<Rightarrow> (MIDICommand list \<times> error option) outcome" where
  "parseMIDIList buffer offset header =
     parseMIDIList_loop buffer (offset + unat (Len header)) (preceedingDeltaTime header)
       \<lparr>st_offset = offset, st_commands = [], st_lastStatusByte = 0\<rparr>"

text \<open>
  The block of \<^verbatim>\<open>Decode\<close> that reads the MIDI list header at index 12; it yields the
  header and \<^verbatim>\<open>listStart\<close>. A Go slice has a length and a capacity: \<open>buffer\<close> holds the
  \<^verbatim>\<open>len(buffer)\<close> bytes of the slice and \<open>spare\<close> the bytes of its backing array
  between length and capacity (the receive loop passes \<^verbatim>\<open>buffer[:n]\<close> of a 1024-byte
  array). The index expression \<^verbatim>\<open>buffer[12]\<close> is checked against the length, the slice
  expression \<^verbatim>\<open>buffer[12:14]\<close> against the capacity.
\<close>

definition decodeMIDIListHeader :: "byte list \<Rightarrow> byte list \<Rightarrow> (MIDIListHeader \<times> nat) outcome" where
  "decodeMIDIListHeader buffer spare =
     (if length buffer \<le> 12 then Panics
      else
        let midiListHeader =
              \<lparr>bigHeader = (buffer ! 12 AND bigHeaderBit > 0),
               hasJournal = (buffer ! 12 AND journalBit > 0),
               preceedingDeltaTime = (buffer ! 12 AND zeroDeltaBit > 0),
               P = False,
               Len = 0\<rparr>
        in if bigHeader midiListHeader
           then
             if length buffer + length spare < 12 + 2 then Panics
             else Returns
                    (midiListHeader
                       \<lparr>Len := Uint16 (take 2 (drop 12 (buffer @ spare))) AND 0x0fff\<rparr>,
                     12 + 2)
           else Returns (midiListHeader\<lparr>Len := ucast (buffer ! 12 AND lenMask)\<rparr>, 12 + 1))"

text \<open>
  \<^verbatim>\<open>Decode\<close>. The first argument is the value of \<^verbatim>\<open>time.Now()\<close>. The error of
  \<^verbatim>\<open>parseMIDIList\<close> is printed and \<^verbatim>\<open>nil\<close> is returned in its place.
\<close>

definition Decode :: "Time \<Rightarrow> byte list \<Rightarrow> byte list \<Rightarrow> (MIDIMessage \<times> error option) outcome" where
  "Decode now buffer spare =
     (let msg = \<lparr>SequenceNumber = 0, SSRC = 0,
                  MsgCommands = \<lparr>Timestamp = zeroTime, Commands = []\<rparr>\<rparr>
      in if length buffer < minimumBufferLength
         then Returns (msg, Some (BufferTooSmall (length buffer)))
         else
           let header = \<lparr>Version = drop_bit 6 (buffer ! 0 AND version2Bit),
                           Padding = (buffer ! 0 AND paddingBit > 0),
                           Extension = (buffer ! 0 AND extensionBit > 0),
                           CSRCCount = buffer ! 0 AND ccMask,
                           Marker = drop_bit 7 (buffer ! 1 AND markerBit),
                           PayloadType = buffer ! 1 AND ptMask\<rparr>;
               msg = msg\<lparr>SequenceNumber := Uint16 (take 2 (drop 2 buffer))\<rparr>;
               msg = msg\<lparr>SSRC := Uint32 (take 4 (drop 8 buffer))\<rparr>
           in (case Valid header of
                 Some err \<Rightarrow> Returns (msg, Some err)
               | None \<Rightarrow>
                   (case decodeMIDIListHeader buffer spare of
                      Panics \<Rightarrow> Panics
                    | Returns (midiListHeader, listStart) \<Rightarrow>
                        (case parseMIDIList buffer listStart midiListHeader of
                           Panics \<Rightarrow> Panics
                         | Returns (commands, err) \<Rightarrow>
                             Returns
                               (msg\<lparr>MsgCommands := \<lparr>Timestamp = now, Commands = commands\<rparr>\<rparr>,
                                None)))))"

text \<open>
  The delta-time of the spec, for comparison with \<open>decodeDeltaTime\<close>: the octets of a
  varint of at most \<open>n\<close> octets at the head of a byte sequence (an octet with its high
  bit set is followed by the next, up to \<open>n\<close>), and their value as a big-endian base-128
  number of the low seven bits of each.
\<close>

fun varint_octets :: "nat \<Rightarrow> byte list \<Rightarrow> byte list" where
  "varint_octets 0 bs = []"
| "varint_octets (Suc n) [] = []"
| "varint_octets (Suc n) (b # bs) =
     b # (if b AND 0x80 \<noteq> 0 then varint_octets n bs else [])"

definition base128 :: "byte list \<Rightarrow> int" where
  "base128 os = foldl (\<lambda>acc b. acc * 128 + uint (b AND 0x7f)) 0 os"

section \<open>Encoding\<close>

text \<open>
  \<^verbatim>\<open>binary.Write\<close> with \<^verbatim>\<open>binary.BigEndian\<close> of a \<^verbatim>\<open>uint16\<close> and of a \<^verbatim>\<open>uint32\<close>.
\<close>

definition PutUint16 :: "16 word \<Rightarrow> byte list" where
  "PutUint16 v = [ucast (drop_bit 8 v), ucast v]"

definition PutUint32 :: "32 word \<Rightarrow> byte list" where
  "PutUint32 v = [ucast (drop_bit 24 v), ucast (drop_bit 16 v), ucast (drop_bit 8 v), ucast v]"

text \<open>
  Package \<^verbatim>\<open>timestamp\<close> is not among the sources. Its two functions are parameters:
  \<open>tsOf t start\<close> stands for \<^verbatim>\<open>timestamp.Of(t, start).Uint32()\<close> and
  \<open>EncodeDeltaTime t start d\<close> for the bytes that
  \<^verbatim>\<open>timestamp.EncodeDeltaTime(t, start, d, b)\<close> writes to the buffer \<^verbatim>\<open>b\<close>.

  The loop \<^verbatim>\<open>for i, mc := range mcs.Commands\<close> of \<^verbatim>\<open>MIDICommands.encode\<close>, carrying
  the header octet and the bytes written so far; \<^verbatim>\<open>MIDIPayload.encode\<close> writes the payload
  as it is (nothing when it is empty).
\<close>

definition MIDIPayload_encode :: "byte list \<Rightarrow> byte list" where
  "MIDIPayload_encode p = (if length p = 0 then [] else p)"

fun encode_range ::
  "(Time \<Rightarrow> Time \<Rightarrow> Duration \<Rightarrow> byte list) \<Rightarrow> Time \<Rightarrow> Time \<Rightarrow> nat \<Rightarrow> MIDICommand list
     \<Rightarrow> byte \<times> byte list \<Rightarrow> byte \<times> byte list" where
  "encode_range EncodeDeltaTime ts start i [] (header, b) = (header, b)"
| "encode_range EncodeDeltaTime ts start i (mc # mcs) (header, b) =
     (let (header1, b1) =
            (if i = 0 \<and> DeltaTime mc > 0
             then (header OR zeroDeltaBit, b @ EncodeDeltaTime ts start (DeltaTime mc))
             else (header, b));
          b2 = (if i > 0 then b1 @ EncodeDeltaTime ts start (DeltaTime mc) else b1);
          b3 = b2 @ MIDIPayload_encode (Payload mc)
      in encode_range EncodeDeltaTime ts start (i + 1) mcs (header1, b3))"

definition MIDICommands_encode ::
  "(Time \<Rightarrow> Time \<Rightarrow> Duration \<Rightarrow> byte list) \<Rightarrow> MIDICommands \<Rightarrow> Time \<Rightarrow> byte list" where
  "MIDICommands_encode EncodeDeltaTime mcs start =
     (if length (Commands mcs) = 0 then [emtpyHeader]
      else
        let (header, b) =
              encode_range EncodeDeltaTime (Timestamp mcs) start 0 (Commands mcs) (emtpyHeader, [])
        in (if length b > 4095 then []
            else if length b > 15
            then [header OR bigHeaderBit OR (of_nat (length b div 2 ^ 8) AND lenMask),
                  of_nat (length b)]
            else [header OR (of_nat (length b) AND lenMask)])
           @ b)"

definition Encode ::
  "(Time \<Rightarrow> Time \<Rightarrow> 32 word) \<Rightarrow> (Time \<Rightarrow> Time \<Rightarrow> Duration \<Rightarrow> byte list) \<Rightarrow> MIDIMessage \<Rightarrow> Time
     \<Rightarrow> byte list" where
  "Encode tsOf EncodeDeltaTime m start =
     [firstByte, secondByte] @ PutUint16 (SequenceNumber m)
       @ PutUint32 (tsOf (Timestamp (MsgCommands m)) start)
       @ PutUint32 (SSRC m)
       @ MIDICommands_encode EncodeDeltaTime (MsgCommands m) start"

text \<open>
  Three notions for the round trip. A complete varint is a sequence of one to four octets
  that \<open>decodeDeltaTime\<close> consumes exactly: every octet but the last has its high bit set,
  and the last has it clear unless it is the fourth. A complete command is a payload that
  one round of \<^verbatim>\<open>parseMIDIList\<close> consumes exactly: a status byte with its high bit set,
  followed for \<open>0xf0\<close> by data bytes with the high bit clear and the terminator \<open>0xf7\<close>,
  and for any other status by as many bytes as the command table gives (none when the table
  gives \<open>-1\<close> or has no entry). The bytes that the encoding loop writes for the commands
  after the first are, for each, its delta-time and its payload.
\<close>

definition complete_varint :: "byte list \<Rightarrow> bool" where
  "complete_varint v \<longleftrightarrow>
     v \<noteq> [] \<and> length v \<le> 4 \<and> (\<forall>b \<in> set (butlast v). b AND 0x80 \<noteq> 0)
     \<and> (length v < 4 \<longrightarrow> last v AND 0x80 = 0)"

definition complete_command :: "byte list \<Rightarrow> bool" where
  "complete_command p \<longleftrightarrow>
     (case p of
        [] \<Rightarrow> False
      | s # ds \<Rightarrow>
          s AND 0x80 = 0x80
          \<and> (if s = 0xf0
               then ds \<noteq> [] \<and> last ds = 0xf7 \<and> (\<forall>d \<in> set (butlast ds). d AND 0x80 = 0)
               else int (length ds) = max 0 (GetDataLength s)))"

definition encoded_rest ::
  "(Time \<Rightarrow> Time \<Rightarrow> Duration \<Rightarrow> byte list) \<Rightarrow> Time \<Rightarrow> Time \<Rightarrow> MIDICommand list \<Rightarrow> byte list" where
  "encoded_rest EncodeDeltaTime ts start cs =
     concat (map (\<lambda>mc. EncodeDeltaTime ts start (DeltaTime mc) @ Payload mc) cs)"

section \<open>Package session\<close>

text \<open>
  Modelled from the spec: package \<^verbatim>\<open>sip\<close> (the control-message decoder) is not among the
  sources. A control message carries a command kind (Invitation, End, or another kind),
  the remote SSRC and the advertised name.
\<close>

datatype sip_command = Invitation | End | Other

record ControlMessage =
  Cmd :: sip_command
  ControlSSRC :: "32 word"
  Name :: string

text \<open>
  Modelled from the spec: the declaration of \<^verbatim>\<open>MIDINetworkStream\<close> and of its states is
  not among the sources; \<^verbatim>\<open>createConnection\<close> sets the fields below, and the spec names
  the states Initial, Established and Ended. \<^verbatim>\<open>createConnection\<close> returns the address of
  a new stream object, and the registry (a \<^verbatim>\<open>sync.Map\<close>) holds such addresses: the heap
  is the list of the stream objects allocated so far, an address is an index into it. The
  back pointer \<^verbatim>\<open>Session\<close> of a stream is left out (there is one session).
\<close>

datatype StreamState = initial | established | ended

record MIDINetworkHost =
  HostBonjourName :: string

record MIDINetworkStream =
  Host :: MIDINetworkHost
  RemoteSSRC :: "32 word"
  State :: StreamState

type_synonym stream_ref = nat
type_synonym heap = "MIDINetworkStream list"

text \<open>
  The session. The fields \<^verbatim>\<open>SSRC\<close> and \<^verbatim>\<open>SequenceNumber\<close> carry the prefix
  \<open>Session\<close> here, since the message has fields of the same names; the handler
  callback is left out.
\<close>

record MIDINetworkSession =
  LocalName :: string
  BonjourName :: string
  Port :: "16 word"
  SessionSSRC :: "32 word"
  SessionSequenceNumber :: "16 word"
  StartTime :: Time
  connections :: "32 word \<rightharpoonup> stream_ref"

text \<open>\<^verbatim>\<open>sync.Map.LoadOrStore\<close>: the map after the call, the actual value, and \<^verbatim>\<open>loaded\<close>.\<close>

definition LoadOrStore ::
  "('k \<rightharpoonup> 'v) \<Rightarrow> 'k \<Rightarrow> 'v \<Rightarrow> ('k \<rightharpoonup> 'v) \<times> 'v \<times> bool" where
  "LoadOrStore m key val =
     (case m key of
        Some actual \<Rightarrow> (m, actual, True)
      | None \<Rightarrow> (m(key \<mapsto> val), val, False))"

definition createConnection :: "heap \<Rightarrow> ControlMessage \<Rightarrow> heap \<times> stream_ref" where
  "createConnection h msg =
     (let host = \<lparr>HostBonjourName = Name msg\<rparr>;
          conn = \<lparr>Host = host, RemoteSSRC = ControlSSRC msg, State = initial\<rparr>
      in (h @ [conn], length h))"

text \<open>
  \<^verbatim>\<open>getConnection\<close> returns the heap and the session after the call, the stream
  (\<open>None\<close> for \<^verbatim>\<open>nil\<close>) and \<^verbatim>\<open>found\<close>. The argument of \<^verbatim>\<open>LoadOrStore\<close> is evaluated
  before the call, so a stream object is allocated for every Invitation.
\<close>

definition getConnection ::
  "heap \<Rightarrow> MIDINetworkSession \<Rightarrow> ControlMessage
     \<Rightarrow> heap \<times> MIDINetworkSession \<times> stream_ref option \<times> bool" where
  "getConnection h s msg =
     (if Cmd msg = Invitation
      then
        let (h', new) = createConnection h msg;
            (m', conn, found) = LoadOrStore (connections s) (ControlSSRC msg) new
        in (h', s\<lparr>connections := m'\<rparr>, Some conn, True)
      else
        (case connections s (ControlSSRC msg) of
           None \<Rightarrow> (h, s, None, False)
         | Some conn \<Rightarrow> (h, s, Some conn, True)))"

text \<open>
  Modelled from the spec: \<^verbatim>\<open>MIDINetworkStream.SendMIDIMessage\<close> is not among the sources;
  by the spec each connection encodes the message and transmits it on the data socket, so
  a call is an output of the session and writes none of its fields. \<^verbatim>\<open>SendMIDICommands\<close>
  returns the session after the call and, for every key of the registry, the call
  \<^verbatim>\<open>v.SendMIDIMessage(m)\<close> that \<^verbatim>\<open>Range\<close> issues for it: the stream and the message.
\<close>

definition SendMIDICommands ::
  "MIDINetworkSession \<Rightarrow> MIDICommands
     \<Rightarrow> MIDINetworkSession \<times> (32 word \<rightharpoonup> stream_ref \<times> MIDIMessage)" where
  "SendMIDICommands s mcs =
     (let s' = s\<lparr>SessionSequenceNumber := SessionSequenceNumber s + 1\<rparr>;
          m = \<lparr>SequenceNumber = SessionSequenceNumber s', SSRC = SessionSSRC s',
               MsgCommands = mcs\<rparr>
      in (s', \<lambda>k. map_option (\<lambda>v. (v, m)) (connections s' k)))"

text \<open>\<^verbatim>\<open>SendMIDIPayload\<close>; the first argument is the value of \<^verbatim>\<open>time.Now()\<close>.\<close>

definition SendMIDIPayload ::
  "Time \<Rightarrow> MIDINetworkSession \<Rightarrow> byte list
     \<Rightarrow> MIDINetworkSession \<times> (32 word \<rightharpoonup> stream_ref \<times> MIDIMessage)" where
  "SendMIDIPayload now s payload =
     (let mcs = \<lparr>Timestamp = now, Commands = [\<lparr>DeltaTime = 0, Payload = payload\<rparr>]\<rparr>
      in SendMIDICommands s mcs)"

section \<open>The parsing loop terminates\<close>

lemma high_bit_cases: "(b :: byte) AND 0x80 = (if bit b 7 then 0x80 else 0)"
proof -
  have e: "(0x80 :: byte) = 2 ^ 7" by simp
  show ?thesis
    unfolding e
    by (rule bit_word_eqI) (auto simp: bit_and_iff bit_exp_iff simp del: power_numeral)
qed

lemma high_bit_clear_iff: "((b :: byte) AND 0x80 \<noteq> 0x80) = (b AND 0x80 = 0)"
  by (simp add: high_bit_cases)

lemma high_bit_pos_iff: "((b :: byte) AND 0x80 > 0) = (b AND 0x80 = 0x80)"
  by (simp add: high_bit_cases)

lemma decodeDeltaTime_offset_mono:
  "decodeDeltaTime k buffer offset deltaTime = Returns (d, offset') \<Longrightarrow> offset \<le> offset'"
proof (induction k arbitrary: offset deltaTime)
  case 0
  then show ?case by simp
next
  case (Suc k)
  then show ?case
    by (fastforce simp: Let_def split: if_splits dest: Suc_leD)
qed

lemma decodeDeltaTime_offset_less:
  "decodeDeltaTime (Suc k) buffer offset deltaTime = Returns (d, offset') \<Longrightarrow> offset < offset'"
  by (auto simp: Let_def split: if_splits dest: decodeDeltaTime_offset_mono)

lemma sysexScan_ge: "dataLength \<le> sysexScan buffer offset dataLength"
proof (induction buffer offset dataLength rule: sysexScan.induct)
  case (1 buffer offset dataLength)
  show ?case
  proof (cases "length buffer > offset + dataLength
         \<and> \<not> (buffer ! (offset + dataLength) AND 0x80 > 0x00)")
    case True
    with "1" have "dataLength + 1 \<le> sysexScan buffer offset (dataLength + 1)" by blast
    with True show ?thesis by (subst sysexScan.simps) simp
  next
    case False
    then show ?thesis by (subst sysexScan.simps) auto
  qed
qed

lemma sysexScan_pos:
  assumes "offset < length buffer" and "buffer ! offset AND 0x80 \<noteq> 0x80"
  shows "0 < sysexScan buffer offset 0"
proof -
  have "\<not> (buffer ! offset AND 0x80 > 0)"
    using assms(2) by (simp add: high_bit_pos_iff)
  then have "sysexScan buffer offset 0 = sysexScan buffer offset 1"
    using assms(1) by (subst sysexScan.simps) simp
  moreover have "1 \<le> sysexScan buffer offset 1" by (rule sysexScan_ge)
  ultimately show ?thesis by simp
qed

lemma sysexDataLength_nonneg: "sysexDataLength buffer offset = Returns n \<Longrightarrow> 0 \<le> n"
  by (auto simp: sysexDataLength_def Let_def split: if_splits)

lemma sysexDataLength_pos:
  assumes "sysexDataLength buffer offset = Returns n"
    and "offset < length buffer" and "buffer ! offset AND 0x80 \<noteq> 0x80"
  shows "0 < n"
  using assms sysexScan_pos [OF assms(2,3)]
  by (auto simp: sysexDataLength_def Let_def split: if_splits)

text \<open>
  A round either moves the offset forward or, when it reads no delta-time and the octet
  at the offset is a data byte of a command without data, appends the first command; after
  that every round reads a delta-time.
\<close>

lemma parseMIDIList_body_decreases:
  assumes "parseMIDIList_body buffer Z st = Continue st'" and "st_offset st < list_end"
  shows "loop_measure list_end Z st' < loop_measure list_end Z st"
proof (cases "length (st_commands st) > 0 \<or> Z")
  case True
  then obtain d o1 where dd: "decodeDeltaTime 4 buffer (st_offset st) 0 = Returns (d, o1)"
    using assms(1) by (auto simp: parseMIDIList_body_def readDeltaTime_def split: outcome.splits)
  then have "st_offset st < o1"
    using decodeDeltaTime_offset_less [of 3 buffer "st_offset st" 0 d o1]
    by (simp add: eval_nat_numeral)
  moreover have "o1 \<le> st_offset st'"
    using assms(1) True dd
    by (auto simp: parseMIDIList_body_def readDeltaTime_def Let_def
        split: outcome.splits if_splits)
  moreover have "st_commands st' \<noteq> [] \<or> Z"
    using assms(1) True dd
    by (auto simp: parseMIDIList_body_def readDeltaTime_def Let_def
        split: outcome.splits if_splits)
  ultimately show ?thesis
    using True assms(2) by (auto simp: loop_measure_def)
next
  case False
  have "st_offset st < st_offset st'
      \<or> (st_offset st \<le> st_offset st' \<and> st_commands st' \<noteq> [])"
  proof (cases "buffer ! st_offset st AND 0x80 = 0x80")
    case True
    with assms(1) False have "st_offset st < st_offset st'"
      by (auto simp: parseMIDIList_body_def readDeltaTime_def Let_def
        split: outcome.splits if_splits)
    then show ?thesis by simp
  next
    case own: False
    show ?thesis
    proof (cases "st_lastStatusByte st = 0xf0")
      case True
      with assms(1) False own have "st_offset st < st_offset st'"
        by (auto simp: parseMIDIList_body_def readDeltaTime_def Let_def
            split: outcome.splits if_splits dest: sysexDataLength_pos)
      then show ?thesis by simp
    next
      case running: False
      with assms(1) False own show ?thesis
        by (auto simp: parseMIDIList_body_def readDeltaTime_def Let_def
        split: outcome.splits if_splits)
    qed
  qed
  with False assms(2) show ?thesis
    by (auto simp: loop_measure_def)
qed

termination parseMIDIList_loop
  by (relation "measure (\<lambda>(buffer, list_end, Z, st). loop_measure list_end Z st)")
     (auto intro: parseMIDIList_body_decreases)

declare parseMIDIList_loop.simps [simp del]
declare sysexScan.simps [simp del]

section \<open>One round of the parsing loop\<close>

text \<open>
  A round that returns does so with the commands appended so far and the
  incomplete-command error; a round that goes on leaves the commands as they were or appends
  one whose delta-time is the value read, in milliseconds.
\<close>

lemma parseMIDIList_body_Return:
  "parseMIDIList_body buffer Z st = Return (cmds, err)
   \<Longrightarrow> cmds = st_commands st \<and> (\<exists>n. err = Some (NotEnoughBufferData n))"
  by (auto simp: parseMIDIList_body_def readDeltaTime_def Let_def
      split: outcome.splits if_splits prod.splits)

lemma parseMIDIList_body_delta_ms:
  "parseMIDIList_body buffer Z st = Continue st' \<Longrightarrow> readDeltaTime buffer Z st = Returns (d, o1)
   \<Longrightarrow> st_commands st' = st_commands st
      \<or> (\<exists>p. st_commands st' = st_commands st @ [\<lparr>DeltaTime = Millisecond * uint d, Payload = p\<rparr>])"
  by (auto simp: parseMIDIList_body_def Let_def split: if_splits outcome.splits)

section \<open>Errors and panics of Decode (C2)\<close>

text \<open>
  What \<^verbatim>\<open>Decode\<close> returns as an error: the too-short error for fewer than 12 bytes, with
  the zero message, and the payload-type error when the low seven bits of byte 1 are not
  \<open>0x61\<close>; whenever it returns otherwise, the error is \<^verbatim>\<open>nil\<close>.
\<close>

lemma Decode_error_cases:
  "(length buffer < 12 \<longrightarrow>
      Decode now buffer spare
        = Returns (\<lparr>SequenceNumber = 0, SSRC = 0,
                     MsgCommands = \<lparr>Timestamp = zeroTime, Commands = []\<rparr>\<rparr>,
                   Some (BufferTooSmall (length buffer))))
   \<and> (12 \<le> length buffer \<and> buffer ! 1 AND 0x7f \<noteq> 0x61 \<longrightarrow>
      Decode now buffer spare
        = Returns (\<lparr>SequenceNumber = Uint16 (take 2 (drop 2 buffer)),
                     SSRC = Uint32 (take 4 (drop 8 buffer)),
                     MsgCommands = \<lparr>Timestamp = zeroTime, Commands = []\<rparr>\<rparr>,
                   Some (PayloadTypeMismatch (buffer ! 1 AND 0x7f))))
   \<and> (12 \<le> length buffer \<and> buffer ! 1 AND 0x7f = 0x61 \<longrightarrow>
      Decode now buffer spare \<noteq> Returns (msg, Some e))"
  by (auto simp: Decode_def minimumBufferLength_def Valid_def ptMask_def payloadType_def Let_def
      split: outcome.splits prod.splits)

text \<open>
  The same three cases as equations for \<^verbatim>\<open>Decode\<close>: with a valid header its outcome is
  that of the list header block and of \<^verbatim>\<open>parseMIDIList\<close>, with the error dropped.
\<close>

lemma Decode_short:
  "length buffer < 12 \<Longrightarrow>
   Decode now buffer spare
     = Returns (\<lparr>SequenceNumber = 0, SSRC = 0,
                 MsgCommands = \<lparr>Timestamp = zeroTime, Commands = []\<rparr>\<rparr>,
                Some (BufferTooSmall (length buffer)))"
  by (simp add: Decode_def minimumBufferLength_def)

lemma Decode_payload_type_mismatch:
  "12 \<le> length buffer \<Longrightarrow> buffer ! 1 AND ptMask \<noteq> payloadType \<Longrightarrow>
   Decode now buffer spare
     = Returns (\<lparr>SequenceNumber = Uint16 (take 2 (drop 2 buffer)),
                 SSRC = Uint32 (take 4 (drop 8 buffer)),
                 MsgCommands = \<lparr>Timestamp = zeroTime, Commands = []\<rparr>\<rparr>,
                Some (PayloadTypeMismatch (buffer ! 1 AND ptMask)))"
  by (simp add: Decode_def minimumBufferLength_def Valid_def Let_def)

lemma Decode_valid_header:
  "12 \<le> length buffer \<Longrightarrow> buffer ! 1 AND ptMask = payloadType \<Longrightarrow>
   Decode now buffer spare
     = (case decodeMIDIListHeader buffer spare of
          Panics \<Rightarrow> Panics
        | Returns (midiListHeader, listStart) \<Rightarrow>
            (case parseMIDIList buffer listStart midiListHeader of
               Panics \<Rightarrow> Panics
             | Returns (commands, err) \<Rightarrow>
                 Returns (\<lparr>SequenceNumber = Uint16 (take 2 (drop 2 buffer)),
                           SSRC = Uint32 (take 4 (drop 8 buffer)),
                           MsgCommands = \<lparr>Timestamp = now, Commands = commands\<rparr>\<rparr>, None)))"
  by (simp add: Decode_def minimumBufferLength_def Valid_def Let_def
      split: outcome.splits prod.splits)

text \<open>
  C2. That \<^verbatim>\<open>Decode\<close> returns for every buffer does not hold of the code. A buffer of
  exactly 12 bytes with the payload type \<open>0x61\<close> passes the length check and then
  \<^verbatim>\<open>buffer[12]\<close> is read: the call panics. A System-Exclusive command that runs to the
  end of the buffer without an octet that has its high bit set ends the scan at the length
  of the buffer, and \<^verbatim>\<open>buffer[offset+dataLength]\<close> is read there: the call panics.
\<close>

theorem Decode_panics_at_buffer_end:
  "Decode now [0x80, 0x61, 0x12, 0x34, 0, 0, 0, 0, 0xde, 0xad, 0xbe, 0xef] spare = Panics
   \<and> Decode now [0x80, 0x61, 0x12, 0x34, 0, 0, 0, 0, 0xde, 0xad, 0xbe, 0xef,
                 0x03, 0xf0, 0x01, 0x02] spare = Panics"
  by code_simp

section \<open>Incomplete commands (C3)\<close>

text \<open>
  C3 as stated does not hold: in the buffer below the list holds a Note-On and then a
  Note-Off with one of its two data bytes. \<^verbatim>\<open>parseMIDIList\<close> returns the Note-On with the
  error, and \<^verbatim>\<open>Decode\<close> returns the Note-On with the error \<^verbatim>\<open>nil\<close>: its caller does
  not receive the error.
\<close>

theorem Decode_incomplete_command_counterexample:
  "parseMIDIList
       [0x80, 0x61, 0x12, 0x34, 0, 0, 0, 0, 0xde, 0xad, 0xbe, 0xef,
        0x06, 0x90, 0x40, 0x7f, 0x00, 0x80, 0x40] 13
       \<lparr>bigHeader = False, hasJournal = False, preceedingDeltaTime = False, P = False, Len = 6\<rparr>
     = Returns ([\<lparr>DeltaTime = 0, Payload = [0x90, 0x40, 0x7f]\<rparr>], Some (NotEnoughBufferData 2))
   \<and> Decode 0
       [0x80, 0x61, 0x12, 0x34, 0, 0, 0, 0, 0xde, 0xad, 0xbe, 0xef,
        0x06, 0x90, 0x40, 0x7f, 0x00, 0x80, 0x40] []
     = Returns (\<lparr>SequenceNumber = 0x1234, SSRC = 0xdeadbeef,
                 MsgCommands = \<lparr>Timestamp = 0,
                   Commands = [\<lparr>DeltaTime = 0, Payload = [0x90, 0x40, 0x7f]\<rparr>]\<rparr>\<rparr>, None)"
  by code_simp

text \<open>
  The test \<^verbatim>\<open>len(buffer) < offset+dataLength\<close> decides a round: with the delta-time read up
  to \<open>statusOffset\<close>, the status byte \<open>statusByte\<close> taken there or from the running status,
  the data bytes starting at \<open>dataOffset\<close> and \<open>dataLength\<close> of them required, the round returns
  the incomplete-command error with the commands appended so far exactly when the buffer is
  shorter than \<open>dataOffset + dataLength\<close>.
\<close>

lemma parseMIDIList_body_shortage:
  assumes rd: "readDeltaTime buffer Z st = Returns (deltaTime, statusOffset)"
    and inside: "statusOffset < length buffer"
    and sb: "statusByte
        = (if buffer ! statusOffset AND 0x80 = 0x80 then buffer ! statusOffset
           else st_lastStatusByte st)"
    and o2: "dataOffset
        = (if buffer ! statusOffset AND 0x80 = 0x80 then statusOffset + 1 else statusOffset)"
    and dl: "(if statusByte = 0xf0 then sysexDataLength buffer dataOffset
              else Returns (GetDataLength statusByte)) = Returns dataLength"
  shows "parseMIDIList_body buffer Z st
           = Return (st_commands st, Some (NotEnoughBufferData dataLength))
         \<longleftrightarrow> int (length buffer) < int dataOffset + dataLength"
  using inside dl unfolding parseMIDIList_body_def rd sb o2
  by (simp add: Let_def)

text \<open>
  C3, amended. Take a round of the parsing loop that starts inside the list, reads its
  delta-time up to \<open>statusOffset\<close>, finds an octet there, and needs \<open>dataLength\<close> data bytes
  from \<open>dataOffset\<close> on. The round returns the incomplete-command error exactly when the
  buffer cannot supply those data bytes, and then the loop stops and returns that error
  together with the commands appended before that round. A round that continues hands its
  state to the rest of the loop, so the result of \<^verbatim>\<open>parseMIDIList\<close> is the result of the
  round that stops. A round returns no other error. \<^verbatim>\<open>Decode\<close> does not fail on it: whatever
  \<^verbatim>\<open>parseMIDIList\<close> returns, error or not, \<^verbatim>\<open>Decode\<close> returns the message with those
  commands and the error \<^verbatim>\<open>nil\<close>.
\<close>

theorem Decode_returns_partial_commands_without_error:
  "(st_offset st < list_end
      \<and> readDeltaTime buffer Z st = Returns (deltaTime, statusOffset)
      \<and> statusOffset < length buffer
      \<and> statusByte
          = (if buffer ! statusOffset AND 0x80 = 0x80 then buffer ! statusOffset
             else st_lastStatusByte st)
      \<and> dataOffset
          = (if buffer ! statusOffset AND 0x80 = 0x80 then statusOffset + 1 else statusOffset)
      \<and> (if statusByte = 0xf0 then sysexDataLength buffer dataOffset
          else Returns (GetDataLength statusByte)) = Returns dataLength
      \<longrightarrow> (parseMIDIList_body buffer Z st
             = Return (st_commands st, Some (NotEnoughBufferData dataLength))
           \<longleftrightarrow> int (length buffer) < int dataOffset + dataLength)
          \<and> (int (length buffer) < int dataOffset + dataLength
               \<longrightarrow> parseMIDIList_loop buffer list_end Z st
                     = Returns (st_commands st, Some (NotEnoughBufferData dataLength))))
   \<and> (st_offset st < list_end \<and> parseMIDIList_body buffer Z st = Continue st'
      \<longrightarrow> parseMIDIList_loop buffer list_end Z st = parseMIDIList_loop buffer list_end Z st')
   \<and> (st_offset st < list_end \<and> parseMIDIList_body buffer Z st = Return (cmds, err)
      \<longrightarrow> parseMIDIList_loop buffer list_end Z st = Returns (st_commands st, err)
          \<and> cmds = st_commands st \<and> (\<exists>n. err = Some (NotEnoughBufferData n)))
   \<and> (12 \<le> length buffer \<and> buffer ! 1 AND ptMask = payloadType
        \<and> decodeMIDIListHeader buffer spare = Returns (midiListHeader, listStart)
        \<and> parseMIDIList buffer listStart midiListHeader = Returns (commands, err')
      \<longrightarrow> Decode now buffer spare
            = Returns (\<lparr>SequenceNumber = Uint16 (take 2 (drop 2 buffer)),
                        SSRC = Uint32 (take 4 (drop 8 buffer)),
                        MsgCommands = \<lparr>Timestamp = now, Commands = commands\<rparr>\<rparr>, None))"
proof (intro conjI impI)
  assume a: "st_offset st < list_end
      \<and> readDeltaTime buffer Z st = Returns (deltaTime, statusOffset)
      \<and> statusOffset < length buffer
      \<and> statusByte
          = (if buffer ! statusOffset AND 0x80 = 0x80 then buffer ! statusOffset
             else st_lastStatusByte st)
      \<and> dataOffset
          = (if buffer ! statusOffset AND 0x80 = 0x80 then statusOffset + 1 else statusOffset)
      \<and> (if statusByte = 0xf0 then sysexDataLength buffer dataOffset
          else Returns (GetDataLength statusByte)) = Returns dataLength"
  from a have rd: "readDeltaTime buffer Z st = Returns (deltaTime, statusOffset)"
    and inside: "statusOffset < length buffer"
    and sb: "statusByte
        = (if buffer ! statusOffset AND 0x80 = 0x80 then buffer ! statusOffset
           else st_lastStatusByte st)"
    and o2: "dataOffset
        = (if buffer ! statusOffset AND 0x80 = 0x80 then statusOffset + 1 else statusOffset)"
    and dl: "(if statusByte = 0xf0 then sysexDataLength buffer dataOffset
              else Returns (GetDataLength statusByte)) = Returns dataLength"
    by blast+
  show iff: "parseMIDIList_body buffer Z st
             = Return (st_commands st, Some (NotEnoughBufferData dataLength))
           \<longleftrightarrow> int (length buffer) < int dataOffset + dataLength"
    by (rule parseMIDIList_body_shortage [OF rd inside sb o2 dl])
  assume short: "int (length buffer) < int dataOffset + dataLength"
  with iff have body: "parseMIDIList_body buffer Z st
             = Return (st_commands st, Some (NotEnoughBufferData dataLength))"
    by blast
  from a have lt: "st_offset st < list_end" by blast
  from lt body show "parseMIDIList_loop buffer list_end Z st
                     = Returns (st_commands st, Some (NotEnoughBufferData dataLength))"
    by (subst parseMIDIList_loop.simps) simp
next
  assume "st_offset st < list_end \<and> parseMIDIList_body buffer Z st = Continue st'"
  then show "parseMIDIList_loop buffer list_end Z st = parseMIDIList_loop buffer list_end Z st'"
    by (subst parseMIDIList_loop.simps) simp
next
  assume a: "st_offset st < list_end \<and> parseMIDIList_body buffer Z st = Return (cmds, err)"
  from a parseMIDIList_body_Return [of buffer Z st cmds err]
  show c: "cmds = st_commands st" and "\<exists>n. err = Some (NotEnoughBufferData n)" by auto
  from a c show "parseMIDIList_loop buffer list_end Z st = Returns (st_commands st, err)"
    by (subst parseMIDIList_loop.simps) simp
next
  assume "12 \<le> length buffer \<and> buffer ! 1 AND ptMask = payloadType
        \<and> decodeMIDIListHeader buffer spare = Returns (midiListHeader, listStart)
        \<and> parseMIDIList buffer listStart midiListHeader = Returns (commands, err')"
  then show "Decode now buffer spare
            = Returns (\<lparr>SequenceNumber = Uint16 (take 2 (drop 2 buffer)),
                        SSRC = Uint32 (take 4 (drop 8 buffer)),
                        MsgCommands = \<lparr>Timestamp = now, Commands = commands\<rparr>\<rparr>, None)"
    by (simp add: Decode_def minimumBufferLength_def Valid_def Let_def)
qed

theorem Decode_returns_partial_commands_without_error_witness:
  "readDeltaTime
       [0x80, 0x61, 0x12, 0x34, 0, 0, 0, 0, 0xde, 0xad, 0xbe, 0xef,
        0x06, 0x90, 0x40, 0x7f, 0x00, 0x80, 0x40] False
       \<lparr>st_offset = 16, st_commands = [\<lparr>DeltaTime = 0, Payload = [0x90, 0x40, 0x7f]\<rparr>],
        st_lastStatusByte = 0x90\<rparr>
     = Returns (0, 17)
   \<and> GetDataLength 0x80 = 2
   \<and> int (length
       [0x80, 0x61, 0x12, 0x34, 0, 0, 0, 0, 0xde, 0xad, 0xbe, 0xef,
        0x06, 0x90, 0x40, 0x7f, 0x00, 0x80, 0x40 :: byte]) < int 18 + 2
   \<and> parseMIDIList_body
       [0x80, 0x61, 0x12, 0x34, 0, 0, 0, 0, 0xde, 0xad, 0xbe, 0xef,
        0x06, 0x90, 0x40, 0x7f, 0x00, 0x80, 0x40] False
       \<lparr>st_offset = 16, st_commands = [\<lparr>DeltaTime = 0, Payload = [0x90, 0x40, 0x7f]\<rparr>],
        st_lastStatusByte = 0x90\<rparr>
     = Return ([\<lparr>DeltaTime = 0, Payload = [0x90, 0x40, 0x7f]\<rparr>], Some (NotEnoughBufferData 2))
   \<and> parseMIDIList_loop
       [0x80, 0x61, 0x12, 0x34, 0, 0, 0, 0, 0xde, 0xad, 0xbe, 0xef,
        0x06, 0x90, 0x40, 0x7f, 0x00, 0x80, 0x40] 19 False
       \<lparr>st_offset = 16, st_commands = [\<lparr>DeltaTime = 0, Payload = [0x90, 0x40, 0x7f]\<rparr>],
        st_lastStatusByte = 0x90\<rparr>
     = Returns ([\<lparr>DeltaTime = 0, Payload = [0x90, 0x40, 0x7f]\<rparr>], Some (NotEnoughBufferData 2))
   \<and> parseMIDIList
       [0x80, 0x61, 0x12, 0x34, 0, 0, 0, 0, 0xde, 0xad, 0xbe, 0xef,
        0x06, 0x90, 0x40, 0x7f, 0x00, 0x80, 0x40] 13
       \<lparr>bigHeader = False, hasJournal = False, preceedingDeltaTime = False, P = False, Len = 6\<rparr>
     = Returns ([\<lparr>DeltaTime = 0, Payload = [0x90, 0x40, 0x7f]\<rparr>], Some (NotEnoughBufferData 2))
   \<and> Decode 5
       [0x80, 0x61, 0x12, 0x34, 0, 0, 0, 0, 0xde, 0xad, 0xbe, 0xef,
        0x06, 0x90, 0x40, 0x7f, 0x00, 0x80, 0x40] []
     = Returns (\<lparr>SequenceNumber = 0x1234, SSRC = 0xdeadbeef,
                 MsgCommands = \<lparr>Timestamp = 5,
                   Commands = [\<lparr>DeltaTime = 0, Payload = [0x90, 0x40, 0x7f]\<rparr>]\<rparr>\<rparr>, None)"
proof -
  let ?buffer = "[0x80, 0x61, 0x12, 0x34, 0, 0, 0, 0, 0xde, 0xad, 0xbe, 0xef,
        0x06, 0x90, 0x40, 0x7f, 0x00, 0x80, 0x40] :: byte list"
  let ?c = "\<lparr>DeltaTime = 0, Payload = [0x90, 0x40, 0x7f]\<rparr>"
  let ?init = "\<lparr>st_offset = 13, st_commands = [], st_lastStatusByte = 0\<rparr>"
  let ?st = "\<lparr>st_offset = 16, st_commands = [?c], st_lastStatusByte = 0x90\<rparr>"
  let ?hdr = "\<lparr>bigHeader = False, hasJournal = False, preceedingDeltaTime = False, P = False,
               Len = 6\<rparr>"
  have rd: "readDeltaTime ?buffer False ?st = Returns (0, 17)"
    by code_simp
  have at17: "?buffer ! 17 = 0x80"
    by code_simp
  have dl: "GetDataLength 0x80 = 2"
    by code_simp
  have len: "length ?buffer = 19"
    by simp
  have h1: "st_offset ?st < 19
      \<and> readDeltaTime ?buffer False ?st = Returns (0, 17)
      \<and> 17 < length ?buffer
      \<and> 0x80 = (if ?buffer ! 17 AND 0x80 = 0x80 then ?buffer ! 17 else st_lastStatusByte ?st)
      \<and> (18::nat) = (if ?buffer ! 17 AND 0x80 = 0x80 then 17 + 1 else 17)
      \<and> (if (0x80 :: byte) = 0xf0 then sysexDataLength ?buffer 18
          else Returns (GetDataLength 0x80)) = Returns 2"
    unfolding at17 rd dl len by simp
  have short: "int (length ?buffer) < int 18 + 2"
    unfolding len by simp
  have first: "parseMIDIList_body ?buffer False ?init = Continue ?st"
    by code_simp
  have h0: "st_offset ?init < 19 \<and> parseMIDIList_body ?buffer False ?init = Continue ?st"
    using first by simp
  have hdr: "decodeMIDIListHeader ?buffer [] = Returns (?hdr, 13)"
    by code_simp
  have seq: "Uint16 (take 2 (drop 2 ?buffer)) = 0x1234" by code_simp
  have ssrc: "Uint32 (take 4 (drop 8 ?buffer)) = 0xdeadbeef" by code_simp
  note inst = Decode_returns_partial_commands_without_error
    [where list_end = 19 and buffer = ?buffer and Z = False and deltaTime = 0
       and statusOffset = 17 and statusByte = "0x80" and dataOffset = 18 and dataLength = 2
       and spare = "[]" and midiListHeader = ?hdr and listStart = 13 and commands = "[?c]"
       and err' = "Some (NotEnoughBufferData 2)" and now = 5]
  note round = inst [where st = ?st, THEN conjunct1, rule_format, OF h1]
  from round short
  have body: "parseMIDIList_body ?buffer False ?st = Return ([?c], Some (NotEnoughBufferData 2))"
    and loop: "parseMIDIList_loop ?buffer 19 False ?st
                 = Returns ([?c], Some (NotEnoughBufferData 2))"
    by simp_all
  note chain = inst [where st = ?init and st' = ?st, THEN conjunct2, THEN conjunct1,
    rule_format, OF h0]
  from chain loop
  have parse: "parseMIDIList ?buffer 13 ?hdr = Returns ([?c], Some (NotEnoughBufferData 2))"
    by (simp add: parseMIDIList_def)
  have h2: "12 \<le> length ?buffer \<and> ?buffer ! 1 AND ptMask = payloadType
      \<and> decodeMIDIListHeader ?buffer [] = Returns (?hdr, 13)
      \<and> parseMIDIList ?buffer 13 ?hdr = Returns ([?c], Some (NotEnoughBufferData 2))"
    using hdr parse by (simp add: ptMask_def payloadType_def)
  from inst [where st = ?st, THEN conjunct2, THEN conjunct2, THEN conjunct2, rule_format, OF h2]
    seq ssrc
  have dec: "Decode 5 ?buffer []
     = Returns (\<lparr>SequenceNumber = 0x1234, SSRC = 0xdeadbeef,
                 MsgCommands = \<lparr>Timestamp = 5, Commands = [?c]\<rparr>\<rparr>, None)"
    by simp
  from rd dl short body loop parse dec show ?thesis
    by (intro conjI)
qed

section \<open>Running status before any status byte (C4)\<close>

text \<open>
  The delta-time of every command that \<^verbatim>\<open>Decode\<close> returns is a number of milliseconds
  read from the buffer, so it is not negative.
\<close>

lemma parseMIDIList_loop_DeltaTime_nonneg:
  "\<forall>c \<in> set (st_commands st). 0 \<le> DeltaTime c
   \<Longrightarrow> parseMIDIList_loop buffer list_end Z st = Returns (cmds, err)
   \<Longrightarrow> \<forall>c \<in> set cmds. 0 \<le> DeltaTime c"
proof (induction buffer list_end Z st rule: parseMIDIList_loop.induct)
  case (1 buffer list_end Z st)
  note unfold = parseMIDIList_loop.simps [of buffer list_end Z st]
  show ?case
  proof (cases "st_offset st < list_end")
    case False
    with "1.prems" show ?thesis by (simp add: unfold)
  next
    case True
    show ?thesis
    proof (cases "parseMIDIList_body buffer Z st")
      case (Continue st')
      obtain d o1 where rd: "readDeltaTime buffer Z st = Returns (d, o1)"
        using Continue by (auto simp: parseMIDIList_body_def split: outcome.splits)
      from parseMIDIList_body_delta_ms [OF Continue rd] "1.prems"(1)
      have inv: "\<forall>c \<in> set (st_commands st'). 0 \<le> DeltaTime c"
        by (auto simp: Millisecond_def)
      from "1.prems"(2) True Continue
      have "parseMIDIList_loop buffer list_end Z st' = Returns (cmds, err)"
        by (simp add: unfold)
      from "1.IH" [OF True Continue inv this] show ?thesis .
    next
      case (Return r)
      with "1.prems" True parseMIDIList_body_Return [of buffer Z st "fst r" "snd r"]
      show ?thesis by (auto simp: unfold)
    next
      case IterationPanics
      with "1.prems" True show ?thesis by (simp add: unfold)
    qed
  qed
qed

lemma Decode_DeltaTime_nonneg:
  assumes "Decode now buffer spare = Returns (msg, err)"
  shows "\<forall>c \<in> set (Commands (MsgCommands msg)). 0 \<le> DeltaTime c"
proof (cases "length buffer < 12")
  case True
  from assms [unfolded Decode_short [OF True]]
  have eq: "msg = \<lparr>SequenceNumber = 0, SSRC = 0,
                 MsgCommands = \<lparr>Timestamp = zeroTime, Commands = []\<rparr>\<rparr>"
    by blast
  show ?thesis unfolding eq by simp
next
  case long: False
  then have long12: "12 \<le> length buffer" by simp
  show ?thesis
  proof (cases "buffer ! 1 AND ptMask = payloadType")
    case False
    from assms [unfolded Decode_payload_type_mismatch [OF long12 False]]
    have eq: "msg = \<lparr>SequenceNumber = Uint16 (take 2 (drop 2 buffer)),
                 SSRC = Uint32 (take 4 (drop 8 buffer)),
                 MsgCommands = \<lparr>Timestamp = zeroTime, Commands = []\<rparr>\<rparr>"
      by blast
    show ?thesis unfolding eq by simp
  next
    case True
    note res = assms [unfolded Decode_valid_header [OF long12 True]]
    show ?thesis
    proof (cases "decodeMIDIListHeader buffer spare")
      case Panics
      with res show ?thesis by simp
    next
      case (Returns r)
      obtain hdr listStart where r: "r = (hdr, listStart)" by (cases r)
      show ?thesis
      proof (cases "parseMIDIList buffer listStart hdr")
        case Panics
        with res Returns r show ?thesis by simp
      next
        case parsed: (Returns q)
        obtain cs e where q: "q = (cs, e)" by (cases q)
        from res Returns r parsed q
        have "Returns (\<lparr>SequenceNumber = Uint16 (take 2 (drop 2 buffer)),
                 SSRC = Uint32 (take 4 (drop 8 buffer)),
                 MsgCommands = \<lparr>Timestamp = now, Commands = cs\<rparr>\<rparr>, None) = Returns (msg, err)"
          by (simp only: outcome.case prod.case)
        then have eq: "msg = \<lparr>SequenceNumber = Uint16 (take 2 (drop 2 buffer)),
                 SSRC = Uint32 (take 4 (drop 8 buffer)),
                 MsgCommands = \<lparr>Timestamp = now, Commands = cs\<rparr>\<rparr>"
          by blast
        have "\<forall>c \<in> set cs. 0 \<le> DeltaTime c"
        proof (rule parseMIDIList_loop_DeltaTime_nonneg)
          show "\<forall>c \<in> set (st_commands \<lparr>st_offset = listStart, st_commands = [],
              st_lastStatusByte = 0\<rparr>). 0 \<le> DeltaTime c"
            by simp
          show "parseMIDIList_loop buffer (listStart + unat (Len hdr)) (preceedingDeltaTime hdr)
              \<lparr>st_offset = listStart, st_commands = [], st_lastStatusByte = 0\<rparr>
              = Returns (cs, e)"
            using parsed q by (simp add: parseMIDIList_def)
        qed
        then show ?thesis unfolding eq by simp
      qed
    qed
  qed
qed

text \<open>
  C4 does not hold of the code in the case it names in particular: when the
  first octet of the list is a data byte, the status byte of the command is the initial
  value \<open>0\<close> of \<^verbatim>\<open>lastStatusByte\<close>. In the buffer below the list is the single octet
  \<open>0x40\<close>; the command table gives no data bytes for the status \<open>0\<close>, so a command with
  payload \<open>[0x00]\<close> is appended without consuming the octet; the next round reads the octet
  as a delta-time of 64 ms, finds a data byte again at the octet after the list, and appends
  a second command with payload \<open>[0x00]\<close>. Neither payload starts with a status byte. The
  delta-times are not negative.
\<close>

theorem Decode_data_byte_first_emits_zero_status:
  "Decode 0 [0x80, 0x61, 0x12, 0x34, 0, 0, 0, 0, 0xde, 0xad, 0xbe, 0xef, 0x01, 0x40, 0x00] []
     = Returns (\<lparr>SequenceNumber = 0x1234, SSRC = 0xdeadbeef,
                 MsgCommands = \<lparr>Timestamp = 0,
                   Commands = [\<lparr>DeltaTime = 0, Payload = [0x00]\<rparr>,
                               \<lparr>DeltaTime = 64000000, Payload = [0x00]\<rparr>]\<rparr>\<rparr>, None)"
  by code_simp

section \<open>System-Exclusive segments (C5)\<close>

text \<open>
  C5 as stated does not hold where a delta-time is due. The loop reads a delta-time before
  every command but the first of a list with the Z flag clear (\<^verbatim>\<open>len(commands) > 0 ||
  header.preceedingDeltaTime\<close>), also after a command that it dropped. In the first buffer
  below the list is a Note-On, the delta-time \<open>0x00\<close>, the segment \<open>0xf0 0x01 0x02 0x90\<close> and
  \<open>0x11 0x22 0x33 0xf7\<close>: the round of the System-Exclusive command appends nothing and
  leaves the offset at \<open>0x90\<close>, and the next round reads \<open>0x90 0x11\<close> as the delta-time 2065
  and takes \<open>0x22 0x33 0xf7\<close> under the running status \<open>0xf0\<close>; no command has the status
  \<open>0x90\<close> of that octet. In the second buffer the list has the Z flag set and starts with the
  delta-time \<open>0x00\<close> and the same segment: no command has been appended, and \<open>0x90 0x11\<close> is
  read as a delta-time all the same.
\<close>

theorem sysex_segments_counterexample:
  "Decode 0 [0x80, 0x61, 0x12, 0x34, 0, 0, 0, 0, 0xde, 0xad, 0xbe, 0xef,
             0x0c, 0x90, 0x40, 0x7f, 0x00, 0xf0, 0x01, 0x02, 0x90, 0x11, 0x22, 0x33, 0xf7] []
     = Returns (\<lparr>SequenceNumber = 0x1234, SSRC = 0xdeadbeef,
                 MsgCommands = \<lparr>Timestamp = 0,
                   Commands = [\<lparr>DeltaTime = 0, Payload = [0x90, 0x40, 0x7f]\<rparr>,
                               \<lparr>DeltaTime = 2065 * Millisecond,
                                Payload = [0xf0, 0x22, 0x33, 0xf7]\<rparr>]\<rparr>\<rparr>, None)
   \<and> parseMIDIList_body
         [0x80, 0x61, 0x12, 0x34, 0, 0, 0, 0, 0xde, 0xad, 0xbe, 0xef,
          0x0c, 0x90, 0x40, 0x7f, 0x00, 0xf0, 0x01, 0x02, 0x90, 0x11, 0x22, 0x33, 0xf7] False
         \<lparr>st_offset = 16, st_commands = [\<lparr>DeltaTime = 0, Payload = [0x90, 0x40, 0x7f]\<rparr>],
          st_lastStatusByte = 0x90\<rparr>
     = Continue \<lparr>st_offset = 20,
         st_commands = [\<lparr>DeltaTime = 0, Payload = [0x90, 0x40, 0x7f]\<rparr>],
         st_lastStatusByte = 0xf0\<rparr>
   \<and> parseMIDIList_body
         [0x80, 0x61, 0x12, 0x34, 0, 0, 0, 0, 0xde, 0xad, 0xbe, 0xef,
          0x0c, 0x90, 0x40, 0x7f, 0x00, 0xf0, 0x01, 0x02, 0x90, 0x11, 0x22, 0x33, 0xf7] False
         \<lparr>st_offset = 20, st_commands = [\<lparr>DeltaTime = 0, Payload = [0x90, 0x40, 0x7f]\<rparr>],
          st_lastStatusByte = 0xf0\<rparr>
     = Continue \<lparr>st_offset = 25,
         st_commands = [\<lparr>DeltaTime = 0, Payload = [0x90, 0x40, 0x7f]\<rparr>,
                        \<lparr>DeltaTime = 2065 * Millisecond, Payload = [0xf0, 0x22, 0x33, 0xf7]\<rparr>],
         st_lastStatusByte = 0xf0\<rparr>
   \<and> Decode 0 [0x80, 0x61, 0x12, 0x34, 0, 0, 0, 0, 0xde, 0xad, 0xbe, 0xef,
               0x29, 0x00, 0xf0, 0x01, 0x02, 0x90, 0x11, 0x22, 0x33, 0xf7] []
     = Returns (\<lparr>SequenceNumber = 0x1234, SSRC = 0xdeadbeef,
                 MsgCommands = \<lparr>Timestamp = 0,
                   Commands = [\<lparr>DeltaTime = 2065 * Millisecond,
                                Payload = [0xf0, 0x22, 0x33, 0xf7]\<rparr>]\<rparr>\<rparr>, None)"
  by code_simp

text \<open>
  The rounds of the loop at a segment. The segment follows \<open>pre\<close> in the buffer and the
  delta-time of the round, read or not, ends at its first octet.
\<close>

lemma sysex_round_terminated:
  assumes rd: "readDeltaTime (pre @ [0xf0, 0x01, 0x02, 0xf7] @ post) Z st
                 = Returns (deltaTime, length pre)"
  shows "parseMIDIList_body (pre @ [0xf0, 0x01, 0x02, 0xf7] @ post) Z st
           = Continue \<lparr>st_offset = length pre + 4,
               st_commands = st_commands st
                 @ [\<lparr>DeltaTime = Millisecond * uint deltaTime,
                     Payload = [0xf0, 0x01, 0x02, 0xf7]\<rparr>],
               st_lastStatusByte = 0xf0\<rparr>"
  unfolding parseMIDIList_body_def rd
  by (simp add: sysexDataLength_def sysexScan.simps nth_append Let_def)

lemma sysex_round_unterminated:
  assumes rd: "readDeltaTime (pre @ [0xf0, 0x01, 0x02, 0x90] @ post) Z st
                 = Returns (deltaTime, length pre)"
  shows "parseMIDIList_body (pre @ [0xf0, 0x01, 0x02, 0x90] @ post) Z st
           = Continue \<lparr>st_offset = length pre + 3, st_commands = st_commands st,
               st_lastStatusByte = 0xf0\<rparr>"
  unfolding parseMIDIList_body_def rd
  by (simp add: sysexDataLength_def sysexScan.simps nth_append Let_def)

lemma status_round_no_delta_time:
  assumes "st_offset st = length pre" "st_commands st = []" "\<not> Z"
  shows "parseMIDIList_body (pre @ 0x90 # d # e # post) Z st
           = Continue \<lparr>st_offset = length pre + 3,
               st_commands = [\<lparr>DeltaTime = 0, Payload = [0x90, d, e]\<rparr>],
               st_lastStatusByte = 0x90\<rparr>"
  using assms
  by (simp add: parseMIDIList_body_def readDeltaTime_def nth_append Let_def Millisecond_def
      GetDataLength_def GetCommandInfo_def commandsInfos_def)

lemma status_octet_as_delta_time:
  assumes "st_offset st = length pre" "st_commands st \<noteq> [] \<or> Z"
  shows "readDeltaTime (pre @ 0x90 # post) Z st
           = decodeDeltaTime 3 (pre @ 0x90 # post) (length pre + 1) 0x10"
proof -
  let ?B = "pre @ 0x90 # post"
  have "readDeltaTime ?B Z st = decodeDeltaTime 4 ?B (length pre) 0"
    using assms by (auto simp add: readDeltaTime_def)
  also have "\<dots> = decodeDeltaTime (Suc 3) ?B (length pre) 0"
    by simp
  also have "\<dots> = decodeDeltaTime 3 ?B (length pre + 1) 0x10"
    unfolding decodeDeltaTime.simps
    by (simp add: nth_append Let_def deltaTimeMask_def deltaTimeHasNext_def)
  finally show ?thesis .
qed

text \<open>The two segments as a list of their own, with the Z flag clear.\<close>

lemma sysex_lists_at_start:
  "parseMIDIList (pre @ [0xf0, 0x01, 0x02, 0xf7] @ post) (length pre)
       \<lparr>bigHeader = B, hasJournal = J, preceedingDeltaTime = False, P = p, Len = 4\<rparr>
     = Returns ([\<lparr>DeltaTime = 0, Payload = [0xf0, 0x01, 0x02, 0xf7]\<rparr>], None)
   \<and> parseMIDIList (pre @ [0xf0, 0x01, 0x02, 0x90] @ d # e # post) (length pre)
       \<lparr>bigHeader = B, hasJournal = J, preceedingDeltaTime = False, P = p, Len = 4\<rparr>
     = Returns ([\<lparr>DeltaTime = 0, Payload = [0x90, d, e]\<rparr>], None)
   \<and> parseMIDIList (pre @ [0xf0, 0x01, 0x02, 0x90]) (length pre)
       \<lparr>bigHeader = B, hasJournal = J, preceedingDeltaTime = False, P = p, Len = 4\<rparr>
     = Returns ([], Some (NotEnoughBufferData 2))"
  by (simp add: parseMIDIList_def parseMIDIList_loop.simps parseMIDIList_body_def readDeltaTime_def
      sysexDataLength_def sysexScan.simps nth_append Let_def Millisecond_def
      GetDataLength_def GetCommandInfo_def commandsInfos_def)

text \<open>
  C5, amended. A segment stands in the buffer after \<open>pre\<close>, at the octet where a round of the
  loop takes its status byte, whether the round has read a delta-time before it or not.
  For the segment \<open>0xf0 0x01 0x02 0xf7\<close> the round appends exactly one command, whose payload
  is those four bytes. For the segment \<open>0xf0 0x01 0x02 0x90\<close> the round appends no command and
  leaves the offset at the octet \<open>0x90\<close>. The next round takes \<open>0x90\<close> as the status byte of
  the next command only where no delta-time is due, that is when no command has been appended
  yet and the Z flag is clear; where a delta-time is due, after an appended command or with
  the Z flag set, it reads \<open>0x90\<close> as the first octet of a delta-time, whose seven low bits
  \<open>0x10\<close> it keeps, and goes on to the next octet with three rounds of the delta-time loop
  left. As lists of their own with the Z flag clear: \<open>0xf0 0x01 0x02 0xf7\<close> decodes to that one
  command; \<open>0xf0 0x01 0x02 0x90\<close> decodes to the one command of status \<open>0x90\<close> when two more
  bytes follow in the buffer, and to no command with the incomplete-command error when the
  buffer ends after \<open>0x90\<close>.
\<close>

theorem sysex_segments:
  "(readDeltaTime (pre @ [0xf0, 0x01, 0x02, 0xf7] @ post) Z st = Returns (deltaTime, length pre)
      \<longrightarrow> parseMIDIList_body (pre @ [0xf0, 0x01, 0x02, 0xf7] @ post) Z st
            = Continue \<lparr>st_offset = length pre + 4,
                st_commands = st_commands st
                  @ [\<lparr>DeltaTime = Millisecond * uint deltaTime,
                      Payload = [0xf0, 0x01, 0x02, 0xf7]\<rparr>],
                st_lastStatusByte = 0xf0\<rparr>)
   \<and> (readDeltaTime (pre @ [0xf0, 0x01, 0x02, 0x90] @ post) Z st = Returns (deltaTime, length pre)
      \<longrightarrow> parseMIDIList_body (pre @ [0xf0, 0x01, 0x02, 0x90] @ post) Z st
            = Continue \<lparr>st_offset = length pre + 3, st_commands = st_commands st,
                st_lastStatusByte = 0xf0\<rparr>
          \<and> (pre @ [0xf0, 0x01, 0x02, 0x90] @ post) ! (length pre + 3) = 0x90)
   \<and> (st_offset st = length pre \<and> st_commands st = [] \<and> \<not> Z
      \<longrightarrow> parseMIDIList_body (pre @ 0x90 # d # e # post) Z st
            = Continue \<lparr>st_offset = length pre + 3,
                st_commands = [\<lparr>DeltaTime = 0, Payload = [0x90, d, e]\<rparr>],
                st_lastStatusByte = 0x90\<rparr>)
   \<and> (st_offset st = length pre \<and> (st_commands st \<noteq> [] \<or> Z)
      \<longrightarrow> readDeltaTime (pre @ 0x90 # post) Z st
            = decodeDeltaTime 3 (pre @ 0x90 # post) (length pre + 1) 0x10)
   \<and> parseMIDIList (pre @ [0xf0, 0x01, 0x02, 0xf7] @ post) (length pre)
       \<lparr>bigHeader = B, hasJournal = J, preceedingDeltaTime = False, P = p, Len = 4\<rparr>
     = Returns ([\<lparr>DeltaTime = 0, Payload = [0xf0, 0x01, 0x02, 0xf7]\<rparr>], None)
   \<and> parseMIDIList (pre @ [0xf0, 0x01, 0x02, 0x90] @ d # e # post) (length pre)
       \<lparr>bigHeader = B, hasJournal = J, preceedingDeltaTime = False, P = p, Len = 4\<rparr>
     = Returns ([\<lparr>DeltaTime = 0, Payload = [0x90, d, e]\<rparr>], None)
   \<and> parseMIDIList (pre @ [0xf0, 0x01, 0x02, 0x90]) (length pre)
       \<lparr>bigHeader = B, hasJournal = J, preceedingDeltaTime = False, P = p, Len = 4\<rparr>
     = Returns ([], Some (NotEnoughBufferData 2))"
proof (intro conjI impI)
  assume "readDeltaTime (pre @ [0xf0, 0x01, 0x02, 0xf7] @ post) Z st
            = Returns (deltaTime, length pre)"
  then show "parseMIDIList_body (pre @ [0xf0, 0x01, 0x02, 0xf7] @ post) Z st
            = Continue \<lparr>st_offset = length pre + 4,
                st_commands = st_commands st
                  @ [\<lparr>DeltaTime = Millisecond * uint deltaTime,
                      Payload = [0xf0, 0x01, 0x02, 0xf7]\<rparr>],
                st_lastStatusByte = 0xf0\<rparr>"
    by (rule sysex_round_terminated)
next
  assume "readDeltaTime (pre @ [0xf0, 0x01, 0x02, 0x90] @ post) Z st
            = Returns (deltaTime, length pre)"
  then show "parseMIDIList_body (pre @ [0xf0, 0x01, 0x02, 0x90] @ post) Z st
            = Continue \<lparr>st_offset = length pre + 3, st_commands = st_commands st,
                st_lastStatusByte = 0xf0\<rparr>"
    by (rule sysex_round_unterminated)
next
  show "(pre @ [0xf0, 0x01, 0x02, 0x90] @ post) ! (length pre + 3) = 0x90"
    by (simp add: nth_append)
next
  assume "st_offset st = length pre \<and> st_commands st = [] \<and> \<not> Z"
  then show "parseMIDIList_body (pre @ 0x90 # d # e # post) Z st
            = Continue \<lparr>st_offset = length pre + 3,
                st_commands = [\<lparr>DeltaTime = 0, Payload = [0x90, d, e]\<rparr>],
                st_lastStatusByte = 0x90\<rparr>"
    by (intro status_round_no_delta_time) simp_all
next
  assume "st_offset st = length pre \<and> (st_commands st \<noteq> [] \<or> Z)"
  then show "readDeltaTime (pre @ 0x90 # post) Z st
            = decodeDeltaTime 3 (pre @ 0x90 # post) (length pre + 1) 0x10"
    by (intro status_octet_as_delta_time) simp_all
next
  show "parseMIDIList (pre @ [0xf0, 0x01, 0x02, 0xf7] @ post) (length pre)
       \<lparr>bigHeader = B, hasJournal = J, preceedingDeltaTime = False, P = p, Len = 4\<rparr>
     = Returns ([\<lparr>DeltaTime = 0, Payload = [0xf0, 0x01, 0x02, 0xf7]\<rparr>], None)"
    using sysex_lists_at_start [of pre post B J p] by blast
next
  show "parseMIDIList (pre @ [0xf0, 0x01, 0x02, 0x90] @ d # e # post) (length pre)
       \<lparr>bigHeader = B, hasJournal = J, preceedingDeltaTime = False, P = p, Len = 4\<rparr>
     = Returns ([\<lparr>DeltaTime = 0, Payload = [0x90, d, e]\<rparr>], None)"
    using sysex_lists_at_start [of pre post B J p d e] by blast
next
  show "parseMIDIList (pre @ [0xf0, 0x01, 0x02, 0x90]) (length pre)
       \<lparr>bigHeader = B, hasJournal = J, preceedingDeltaTime = False, P = p, Len = 4\<rparr>
     = Returns ([], Some (NotEnoughBufferData 2))"
    using sysex_lists_at_start [of pre post B J p] by blast
qed

theorem sysex_segments_witness:
  "parseMIDIList_body
       [0x90, 0x40, 0x7f, 0x05, 0xf0, 0x01, 0x02, 0xf7, 0x00, 0x80, 0x40, 0x00] False
       \<lparr>st_offset = 3, st_commands = [\<lparr>DeltaTime = 0, Payload = [0x90, 0x40, 0x7f]\<rparr>],
        st_lastStatusByte = 0x90\<rparr>
     = Continue \<lparr>st_offset = 8,
         st_commands = [\<lparr>DeltaTime = 0, Payload = [0x90, 0x40, 0x7f]\<rparr>,
                        \<lparr>DeltaTime = 5 * Millisecond, Payload = [0xf0, 0x01, 0x02, 0xf7]\<rparr>],
         st_lastStatusByte = 0xf0\<rparr>
   \<and> parseMIDIList_body
       [0x90, 0x40, 0x7f, 0x05, 0xf0, 0x01, 0x02, 0x90, 0x11, 0x22, 0x33, 0xf7] False
       \<lparr>st_offset = 3, st_commands = [\<lparr>DeltaTime = 0, Payload = [0x90, 0x40, 0x7f]\<rparr>],
        st_lastStatusByte = 0x90\<rparr>
     = Continue \<lparr>st_offset = 7,
         st_commands = [\<lparr>DeltaTime = 0, Payload = [0x90, 0x40, 0x7f]\<rparr>],
         st_lastStatusByte = 0xf0\<rparr>
   \<and> parseMIDIList_body [0xf0, 0x01, 0x02, 0x90, 0x11, 0x22, 0x33, 0xf7] False
       \<lparr>st_offset = 3, st_commands = [], st_lastStatusByte = 0xf0\<rparr>
     = Continue \<lparr>st_offset = 6,
         st_commands = [\<lparr>DeltaTime = 0, Payload = [0x90, 0x11, 0x22]\<rparr>],
         st_lastStatusByte = 0x90\<rparr>
   \<and> readDeltaTime
       [0x90, 0x40, 0x7f, 0x05, 0xf0, 0x01, 0x02, 0x90, 0x11, 0x22, 0x33, 0xf7] False
       \<lparr>st_offset = 7, st_commands = [\<lparr>DeltaTime = 0, Payload = [0x90, 0x40, 0x7f]\<rparr>],
        st_lastStatusByte = 0xf0\<rparr>
     = Returns (2065, 9)"
proof -
  let ?c = "\<lparr>DeltaTime = 0, Payload = [0x90, 0x40, 0x7f]\<rparr>"
  let ?pre = "[0x90, 0x40, 0x7f, 0x05] :: byte list"
  let ?st = "\<lparr>st_offset = 3, st_commands = [?c], st_lastStatusByte = 0x90\<rparr>"
  let ?st' = "\<lparr>st_offset = 7, st_commands = [?c], st_lastStatusByte = 0xf0\<rparr>"
  let ?start = "\<lparr>st_offset = 3, st_commands = [], st_lastStatusByte = 0xf0\<rparr>"
  have h1: "readDeltaTime (?pre @ [0xf0, 0x01, 0x02, 0xf7] @ [0x00, 0x80, 0x40, 0x00]) False ?st
              = Returns (5, length ?pre)"
    by code_simp
  have h2: "readDeltaTime (?pre @ [0xf0, 0x01, 0x02, 0x90] @ [0x11, 0x22, 0x33, 0xf7]) False ?st
              = Returns (5, length ?pre)"
    by code_simp
  have h3: "st_offset ?start = length [0xf0, 0x01, 0x02 :: byte] \<and> st_commands ?start = []
              \<and> \<not> False"
    by simp
  have h4: "st_offset ?st' = length (?pre @ [0xf0, 0x01, 0x02])
              \<and> (st_commands ?st' \<noteq> [] \<or> False)"
    by simp
  have rest: "decodeDeltaTime 3
                [0x90, 0x40, 0x7f, 0x05, 0xf0, 0x01, 0x02, 0x90, 0x11, 0x22, 0x33, 0xf7] 8 0x10
              = Returns (2065, 9)"
    by code_simp
  note a = sysex_segments
    [where pre = ?pre and post = "[0x00, 0x80, 0x40, 0x00]" and Z = False and st = ?st
       and deltaTime = 5, THEN conjunct1, rule_format, OF h1]
  note b = sysex_segments
    [where pre = ?pre and post = "[0x11, 0x22, 0x33, 0xf7]" and Z = False and st = ?st
       and deltaTime = 5, THEN conjunct2, THEN conjunct1, rule_format, OF h2]
  note c = sysex_segments
    [where pre = "[0xf0, 0x01, 0x02]" and post = "[0x33, 0xf7]" and d = "0x11" and e = "0x22"
       and Z = False and st = ?start,
     THEN conjunct2, THEN conjunct2, THEN conjunct1, rule_format, OF h3]
  note d = sysex_segments
    [where pre = "?pre @ [0xf0, 0x01, 0x02]" and post = "[0x11, 0x22, 0x33, 0xf7]"
       and Z = False and st = ?st',
     THEN conjunct2, THEN conjunct2, THEN conjunct2, THEN conjunct1, rule_format, OF h4]
  from a have A: "parseMIDIList_body
       [0x90, 0x40, 0x7f, 0x05, 0xf0, 0x01, 0x02, 0xf7, 0x00, 0x80, 0x40, 0x00] False ?st
     = Continue \<lparr>st_offset = 8,
         st_commands = [?c, \<lparr>DeltaTime = 5 * Millisecond, Payload = [0xf0, 0x01, 0x02, 0xf7]\<rparr>],
         st_lastStatusByte = 0xf0\<rparr>"
    by simp
  from b have B: "parseMIDIList_body
       [0x90, 0x40, 0x7f, 0x05, 0xf0, 0x01, 0x02, 0x90, 0x11, 0x22, 0x33, 0xf7] False ?st
     = Continue \<lparr>st_offset = 7, st_commands = [?c], st_lastStatusByte = 0xf0\<rparr>"
    by simp
  from c have C: "parseMIDIList_body [0xf0, 0x01, 0x02, 0x90, 0x11, 0x22, 0x33, 0xf7] False ?start
     = Continue \<lparr>st_offset = 6,
         st_commands = [\<lparr>DeltaTime = 0, Payload = [0x90, 0x11, 0x22]\<rparr>],
         st_lastStatusByte = 0x90\<rparr>"
    by simp
  have l8: "length (?pre @ [0xf0, 0x01, 0x02]) + 1 = 8"
    by simp
  from d [unfolded l8] rest have D: "readDeltaTime
       [0x90, 0x40, 0x7f, 0x05, 0xf0, 0x01, 0x02, 0x90, 0x11, 0x22, 0x33, 0xf7] False ?st'
     = Returns (2065, 9)"
    by simp
  from A B C D show ?thesis
    by (intro conjI)
qed

text \<open>The two lists of C5 behind a 12-byte header, through \<^verbatim>\<open>Decode\<close>.\<close>

lemma Decode_sysex_examples:
  "Decode now [0x80, 0x61, 0x12, 0x34, 0, 0, 0, 0, 0xde, 0xad, 0xbe, 0xef,
        0x04, 0xf0, 0x01, 0x02, 0xf7] spare
     = Returns (\<lparr>SequenceNumber = 0x1234, SSRC = 0xdeadbeef,
                 MsgCommands = \<lparr>Timestamp = now,
                   Commands = [\<lparr>DeltaTime = 0, Payload = [0xf0, 0x01, 0x02, 0xf7]\<rparr>]\<rparr>\<rparr>, None)
  \<and> Decode now [0x80, 0x61, 0x12, 0x34, 0, 0, 0, 0, 0xde, 0xad, 0xbe, 0xef,
        0x04, 0xf0, 0x01, 0x02, 0x90] spare
     = Returns (\<lparr>SequenceNumber = 0x1234, SSRC = 0xdeadbeef,
                 MsgCommands = \<lparr>Timestamp = now, Commands = []\<rparr>\<rparr>, None)"
  by code_simp

section \<open>The delta-time varint (C6)\<close>

lemma ucast_byte_is_up: "is_up (ucast :: byte \<Rightarrow> 32 word)"
  by (simp add: is_up)

lemma uint_0x7f_32: "uint (0x7f :: 32 word) = mask 7"
  by (simp add: mask_eq_exp_minus_1)

lemma uint_low7_ucast: "uint (ucast (b::byte) AND (0x7f :: 32 word)) = take_bit 7 (uint b)"
proof -
  have "uint (ucast b AND (0x7f :: 32 word)) = uint (ucast b :: 32 word) AND uint (0x7f :: 32 word)"
    by (rule unsigned_and_eq)
  also have "uint (ucast b :: 32 word) = uint b"
    by (rule uint_up_ucast) (rule ucast_byte_is_up)
  also have "uint (0x7f :: 32 word) = mask 7"
    by (rule uint_0x7f_32)
  finally show ?thesis by (simp only: take_bit_eq_mask)
qed

lemma concat_low7: "push_bit 7 (k::int) OR take_bit 7 l = k * 128 + l mod 128"
  using concat_bit_eq [of 7 l k]
  by (simp add: concat_bit_def push_bit_eq_mult take_bit_eq_mod ac_simps)

lemma uint_push_bit_7:
  assumes "uint (acc :: 32 word) < 2 ^ 25"
  shows "uint (push_bit 7 acc) = push_bit 7 (uint acc)"
proof -
  have "push_bit 7 (uint acc) < 2 ^ 32"
    using assms by (simp add: push_bit_eq_mult)
  moreover have "0 \<le> push_bit 7 (uint acc)" by simp
  ultimately have "take_bit 32 (push_bit 7 (uint acc)) = push_bit 7 (uint acc)"
    by (simp add: take_bit_int_eq_self)
  then show ?thesis by (simp add: unsigned_push_bit_eq)
qed

lemma varint_step_uint_mod:
  assumes "uint (acc :: 32 word) < 2 ^ 25"
  shows "uint (push_bit 7 acc OR (ucast (b::byte) AND 0x7f)) = uint acc * 128 + uint b mod 128"
  by (simp only: unsigned_or_eq uint_low7_ucast uint_push_bit_7 [OF assms] concat_low7)

lemma uint_0x7f_8: "uint (0x7f :: byte) = mask 7"
  by (simp add: mask_eq_exp_minus_1)

lemma uint_low7: "uint ((b::byte) AND 0x7f) = uint b mod 128"
proof -
  have "uint (b AND 0x7f) = uint b AND uint (0x7f :: byte)"
    by (rule unsigned_and_eq)
  also have "uint (0x7f :: byte) = mask 7"
    by (rule uint_0x7f_8)
  also have "uint b AND mask 7 = take_bit 7 (uint b)"
    by (simp only: take_bit_eq_mask)
  also have "\<dots> = uint b mod 2 ^ 7" by (rule take_bit_eq_mod)
  finally show ?thesis by simp
qed

lemma low7_bounds: "0 \<le> uint ((b::byte) AND 0x7f) \<and> uint ((b::byte) AND 0x7f) < 128"
  by (simp only: uint_low7) simp

lemma varint_step_uint:
  assumes "uint (acc :: 32 word) < 2 ^ 25"
  shows "uint (push_bit 7 acc OR (ucast (b::byte) AND deltaTimeMask))
           = uint acc * 128 + uint (b AND 0x7f)"
  using varint_step_uint_mod [OF assms, of b] by (simp only: uint_low7 deltaTimeMask_def)

lemma digit_bound:
  assumes "0 \<le> a" "(a::int) < 128 ^ j" and "0 \<le> x" "x < 128"
  shows "0 \<le> a * 128 + x \<and> a * 128 + x < 128 ^ Suc j"
proof -
  have "a * 128 + x < (a + 1) * 128" using assms(4) by simp
  also have "\<dots> \<le> 128 ^ j * 128" using assms(2) by (intro mult_right_mono) simp_all
  finally have "a * 128 + x < 128 ^ Suc j" by (simp add: mult.commute)
  moreover have "0 \<le> a * 128 + x" using assms(1,3) by simp
  ultimately show ?thesis by simp
qed

lemma length_varint_octets: "length (varint_octets n bs) \<le> n"
  by (induction n bs rule: varint_octets.induct) auto

lemma foldl_base128_bound:
  "0 \<le> a \<Longrightarrow> a < 128 ^ j
   \<Longrightarrow> 0 \<le> foldl (\<lambda>acc b. acc * 128 + uint ((b::byte) AND 0x7f)) a os
     \<and> foldl (\<lambda>acc b. acc * 128 + uint ((b::byte) AND 0x7f)) a os < 128 ^ (j + length os)"
proof (induction os arbitrary: a j)
  case Nil
  then show ?case by simp
next
  case (Cons b os)
  from digit_bound [OF Cons.prems low7_bounds [of b, THEN conjunct1] low7_bounds [of b, THEN conjunct2]]
  have "0 \<le> a * 128 + uint (b AND 0x7f)" "a * 128 + uint (b AND 0x7f) < 128 ^ Suc j" by simp_all
  from Cons.IH [OF this] show ?case by simp
qed

lemma base128_bounds: "0 \<le> base128 (varint_octets 4 bs) \<and> base128 (varint_octets 4 bs) < 2 ^ 28"
proof -
  have "0 \<le> base128 (varint_octets 4 bs)
      \<and> base128 (varint_octets 4 bs) < 128 ^ (0 + length (varint_octets 4 bs))"
    unfolding base128_def by (rule foldl_base128_bound) simp_all
  moreover have "(128::int) ^ (0 + length (varint_octets 4 bs)) \<le> 128 ^ 4"
    using length_varint_octets [of 4 bs] by (intro power_increasing) simp_all
  ultimately show ?thesis by simp
qed

lemma decodeDeltaTime_varint_gen:
  assumes "0 \<le> uint acc" "uint acc < 128 ^ j" "j + k \<le> 4"
  shows "decodeDeltaTime k buffer offset acc =
     (if k = 0 then Returns (acc, offset)
      else
        let os = varint_octets k (drop offset buffer)
        in if os = [] \<or> (length os < k \<and> last os AND 0x80 \<noteq> 0) then Panics
           else Returns (word_of_int (foldl (\<lambda>a b. a * 128 + uint (b AND 0x7f)) (uint acc) os),
                         offset + length os))"
  using assms
proof (induction k arbitrary: offset acc j)
  case 0
  then show ?case by simp
next
  case (Suc k)
  show ?case
  proof (cases "length buffer \<le> offset")
    case True
    then show ?thesis by simp
  next
    case False
    define b where "b = buffer ! offset"
    define acc' where "acc' = push_bit 7 acc OR (ucast b AND deltaTimeMask)"
    have dr: "drop offset buffer = b # drop (Suc offset) buffer"
      using False by (simp add: b_def Cons_nth_drop_Suc)
    have "(128::int) ^ j \<le> 128 ^ 3"
      using Suc.prems(3) by (intro power_increasing) simp_all
    with Suc.prems(2) have "uint acc < 2 ^ 25" by simp
    then have val: "uint acc' = uint acc * 128 + uint (b AND 0x7f)"
      unfolding acc'_def by (rule varint_step_uint)
    from digit_bound [OF Suc.prems(1,2) low7_bounds [of b, THEN conjunct1]
        low7_bounds [of b, THEN conjunct2]] val
    have bnd: "0 \<le> uint acc'" "uint acc' < 128 ^ Suc j" by simp_all
    have step: "decodeDeltaTime (Suc k) buffer offset acc =
        (if b AND 0x80 = 0 then Returns (acc', offset + 1)
         else decodeDeltaTime k buffer (offset + 1) acc')"
      using False by (simp add: b_def acc'_def Let_def deltaTimeHasNext_def)
    have res: "word_of_int (uint acc * 128 + uint (b AND 0x7f)) = acc'"
      by (simp only: val [symmetric] word_of_int_uint)
    show ?thesis
    proof (cases "b AND 0x80 = 0")
      case True
      with dr res show ?thesis unfolding step by (simp add: Let_def)
    next
      case cont: False
      have jk: "Suc j + k \<le> 4" using Suc.prems(3) by simp
      note IH = Suc.IH [OF bnd(1) bnd(2) jk, of "offset + 1"]
      show ?thesis
      proof (cases "k = 0")
        case True
        with cont IH dr res show ?thesis unfolding step by (simp add: Let_def)
      next
        case False
        with cont IH dr val show ?thesis unfolding step
          by (auto simp: Let_def)
      qed
    qed
  qed
qed

lemma decodeDeltaTime_varint:
  "decodeDeltaTime 4 buffer offset 0 =
     (let os = varint_octets 4 (drop offset buffer)
      in if os = [] \<or> (length os < 4 \<and> last os AND 0x80 \<noteq> 0) then Panics
         else Returns (word_of_int (base128 os), offset + length os))"
  using decodeDeltaTime_varint_gen [of 0 0 4 buffer offset]
  by (simp add: base128_def Let_def)

lemma four_rounds: "(4::nat) = Suc (Suc (Suc (Suc 0)))"
  by simp

lemma decodeDeltaTime_0x81_0x00: "decodeDeltaTime 4 ([0x81, 0x00] @ rest) 0 0 = Returns (128, 2)"
  unfolding four_rounds by (simp add: Let_def deltaTimeMask_def deltaTimeHasNext_def)

lemma decodeDeltaTime_0x00: "decodeDeltaTime 4 ([0x00] @ rest) 0 0 = Returns (0, 1)"
  unfolding four_rounds by (simp add: Let_def deltaTimeMask_def deltaTimeHasNext_def)


text \<open>
  C6. A round reads a delta-time only when a command has been appended before or the Z flag
  is set; otherwise the delta-time is \<open>0\<close> and the offset stays. What is read is the varint
  of the spec: the octets are taken while the high bit is set, four at most, and the value
  is the big-endian base-128 number of their low seven bits, below \<open>2 ^ 28\<close>; the read panics
  when the buffer ends before the varint does. The octets \<open>0x81 0x00\<close> give 128 and the
  octet \<open>0x00\<close> gives 0. The command appended by the round carries the value as
  milliseconds.
\<close>

theorem delta_time_varint:
  "(\<not> Z \<and> st_commands st = [] \<longrightarrow> readDeltaTime buffer Z st = Returns (0, st_offset st))
   \<and> (Z \<or> st_commands st \<noteq> [] \<longrightarrow>
        readDeltaTime buffer Z st = decodeDeltaTime 4 buffer (st_offset st) 0)
   \<and> decodeDeltaTime 4 buffer offset 0 =
        (let os = varint_octets 4 (drop offset buffer)
         in if os = [] \<or> (length os < 4 \<and> last os AND 0x80 \<noteq> 0) then Panics
            else Returns (word_of_int (base128 os), offset + length os))
   \<and> length (varint_octets 4 bs) \<le> 4
   \<and> 0 \<le> base128 (varint_octets 4 bs) \<and> base128 (varint_octets 4 bs) < 2 ^ 28
   \<and> decodeDeltaTime 4 ([0x81, 0x00] @ rest) 0 0 = Returns (128, 2)
   \<and> decodeDeltaTime 4 ([0x00] @ rest) 0 0 = Returns (0, 1)
   \<and> (parseMIDIList_body buffer Z st = Continue st' \<and> readDeltaTime buffer Z st = Returns (d, o1)
        \<longrightarrow> st_commands st' = st_commands st
            \<or> (\<exists>p. st_commands st'
                      = st_commands st @ [\<lparr>DeltaTime = Millisecond * uint d, Payload = p\<rparr>]))"
proof (intro conjI impI)
  show "decodeDeltaTime 4 buffer offset 0 =
        (let os = varint_octets 4 (drop offset buffer)
         in if os = [] \<or> (length os < 4 \<and> last os AND 0x80 \<noteq> 0) then Panics
            else Returns (word_of_int (base128 os), offset + length os))"
    by (rule decodeDeltaTime_varint)
  show "length (varint_octets 4 bs) \<le> 4" by (rule length_varint_octets)
  show "0 \<le> base128 (varint_octets 4 bs)" "base128 (varint_octets 4 bs) < 2 ^ 28"
    using base128_bounds [of bs] by simp_all
  show "decodeDeltaTime 4 ([0x81, 0x00] @ rest) 0 0 = Returns (128, 2)" by (rule decodeDeltaTime_0x81_0x00)
  show "decodeDeltaTime 4 ([0x00] @ rest) 0 0 = Returns (0, 1)" by (rule decodeDeltaTime_0x00)
next
  assume "\<not> Z \<and> st_commands st = []"
  then show "readDeltaTime buffer Z st = Returns (0, st_offset st)"
    by (simp add: readDeltaTime_def)
next
  assume "Z \<or> st_commands st \<noteq> []"
  then show "readDeltaTime buffer Z st = decodeDeltaTime 4 buffer (st_offset st) 0"
    by (auto simp: readDeltaTime_def)
next
  assume "parseMIDIList_body buffer Z st = Continue st' \<and> readDeltaTime buffer Z st = Returns (d, o1)"
  then show "st_commands st' = st_commands st
            \<or> (\<exists>p. st_commands st'
                      = st_commands st @ [\<lparr>DeltaTime = Millisecond * uint d, Payload = p\<rparr>])"
    using parseMIDIList_body_delta_ms by blast
qed

theorem delta_time_varint_witness:
  "readDeltaTime
       [0x80, 0x61, 0x12, 0x34, 0, 0, 0, 0, 0xde, 0xad, 0xbe, 0xef,
        0x25, 0x81, 0x00, 0x90, 0x40, 0x7f] False
       \<lparr>st_offset = 13, st_commands = [], st_lastStatusByte = 0\<rparr>
     = Returns (0, 13)
   \<and> readDeltaTime
       [0x80, 0x61, 0x12, 0x34, 0, 0, 0, 0, 0xde, 0xad, 0xbe, 0xef,
        0x25, 0x81, 0x00, 0x90, 0x40, 0x7f] True
       \<lparr>st_offset = 13, st_commands = [], st_lastStatusByte = 0\<rparr>
     = Returns (128, 15)
   \<and> parseMIDIList_body
       [0x80, 0x61, 0x12, 0x34, 0, 0, 0, 0, 0xde, 0xad, 0xbe, 0xef,
        0x25, 0x81, 0x00, 0x90, 0x40, 0x7f] True
       \<lparr>st_offset = 13, st_commands = [], st_lastStatusByte = 0\<rparr>
     = Continue \<lparr>st_offset = 18,
          st_commands = [\<lparr>DeltaTime = 128 * Millisecond, Payload = [0x90, 0x40, 0x7f]\<rparr>],
          st_lastStatusByte = 0x90\<rparr>"
proof -
  let ?buffer = "[0x80, 0x61, 0x12, 0x34, 0, 0, 0, 0, 0xde, 0xad, 0xbe, 0xef,
        0x25, 0x81, 0x00, 0x90, 0x40, 0x7f] :: byte list"
  let ?st = "\<lparr>st_offset = 13, st_commands = [], st_lastStatusByte = 0\<rparr>"
  let ?st' = "\<lparr>st_offset = 18,
          st_commands = [\<lparr>DeltaTime = 128 * Millisecond, Payload = [0x90, 0x40, 0x7f]\<rparr>],
          st_lastStatusByte = 0x90\<rparr>"
  note clear = delta_time_varint [where Z = False and st = ?st and buffer = ?buffer]
  note set = delta_time_varint [where Z = True and st = ?st and buffer = ?buffer and offset = 13
      and st' = ?st' and d = 128 and ?o1.0 = 15]
  have octets: "varint_octets 4 (drop 13 ?buffer) = [0x81, 0x00]" by code_simp
  have val: "base128 [0x81, 0x00] = 128" by code_simp
  have 1: "readDeltaTime ?buffer False ?st = Returns (0, 13)"
    using clear [THEN conjunct1] by simp
  have "readDeltaTime ?buffer True ?st = decodeDeltaTime 4 ?buffer 13 0"
    using set [THEN conjunct2, THEN conjunct1] by simp
  also have "\<dots> = Returns (128, 15)"
    using set [THEN conjunct2, THEN conjunct2, THEN conjunct1] octets val
    by (simp add: Let_def)
  finally have 2: "readDeltaTime ?buffer True ?st = Returns (128, 15)" .
  have 3: "parseMIDIList_body ?buffer True ?st = Continue ?st'" by code_simp
  from set [THEN conjunct2, THEN conjunct2, THEN conjunct2, THEN conjunct2, THEN conjunct2,
      THEN conjunct2, THEN conjunct2, THEN conjunct2, rule_format, OF conjI [OF 3 2]]
  have "st_commands ?st' = st_commands ?st
      \<or> (\<exists>p. st_commands ?st'
              = st_commands ?st @ [\<lparr>DeltaTime = Millisecond * uint (128 :: 32 word), Payload = p\<rparr>])" .
  with 1 2 3 show ?thesis by simp
qed

section \<open>Width of the list header (C7)\<close>

lemma encode_range_header:
  "fst (encode_range E ts start i cs (header, b))
     = (if i = 0 \<and> cs \<noteq> [] \<and> DeltaTime (hd cs) > 0 then header OR zeroDeltaBit else header)"
proof (induction cs arbitrary: i header b)
  case Nil
  then show ?case by simp
next
  case (Cons mc cs)
  then show ?case by (simp add: Let_def split: prod.splits)
qed

lemma lenMask_is_mask: "(0x0f :: byte) = mask 4"
  by (simp add: mask_eq_exp_minus_1)

lemma of_nat_low4:
  assumes "n \<le> 15"
  shows "(of_nat n :: byte) AND 0x0f = of_nat n"
proof -
  have "take_bit 4 n = n" using assms by (simp add: take_bit_nat_eq_self)
  then have "take_bit 4 (of_nat n :: byte) = of_nat n"
    by (metis of_nat_take_bit)
  then show ?thesis unfolding lenMask_is_mask by (simp only: take_bit_eq_mask)
qed

lemma bit7_is_power: "(0x80 :: byte) = 2 ^ 7" by simp
lemma bit5_is_power: "(0x20 :: byte) = 2 ^ 5" by simp

lemma compact_header_bits:
  assumes "(h :: byte) = 0 \<or> h = 0x20"
  shows "(h OR (x AND 0x0f)) AND 0x80 = 0" and "(h OR (x AND 0x0f)) AND 0x0f = x AND 0x0f"
    and "(h OR (x AND 0x0f)) AND 0x20 = h"
  using assms unfolding bit7_is_power bit5_is_power lenMask_is_mask
  by - (rule bit_word_eqI, auto simp: bit_simps simp del: power_numeral)+

lemma big_header_bits:
  assumes "(h :: byte) = 0 \<or> h = 0x20"
  shows "(h OR 0x80 OR (x AND 0x0f)) AND 0x80 = 0x80"
    and "(h OR 0x80 OR (x AND 0x0f)) AND 0x0f = x AND 0x0f"
    and "(h OR 0x80 OR (x AND 0x0f)) AND 0x20 = h"
  using assms unfolding bit7_is_power bit5_is_power lenMask_is_mask
  by - (rule bit_word_eqI, auto simp: bit_simps simp del: power_numeral)+

lemma encode_range_header_cases:
  assumes "encode_range E ts start 0 cs (emtpyHeader, []) = (header, b)"
  shows "header = 0 \<or> header = 0x20"
  using encode_range_header [of E ts start 0 cs emtpyHeader "[]"] assms
  by (auto simp: emtpyHeader_def zeroDeltaBit_def split: if_splits)

text \<open>
  C7. An empty command list encodes as the single octet \<open>0x00\<close>. Otherwise the loop over the
  commands yields the flag octet (\<open>0x00\<close>, or \<open>0x20\<close> when the first command has a positive
  delta-time) and the list body. A body of at most 15 bytes, so one of exactly 15, is written
  behind one header octet with the B flag clear and the length in its low four bits. A body
  of 16 to 4095 bytes, so one of exactly 16, is written behind two header octets: the first
  has the B flag set and the high four bits of the 12-bit length in its low four bits, the
  second is the low eight bits of the length.
\<close>

theorem MIDICommands_encode_header_width:
  "MIDICommands_encode E \<lparr>Timestamp = t, Commands = []\<rparr> start = [0x00]
   \<and> (Commands mcs \<noteq> []
        \<and> encode_range E (Timestamp mcs) start 0 (Commands mcs) (emtpyHeader, []) = (header, b)
        \<and> length b \<le> 15
      \<longrightarrow> MIDICommands_encode E mcs start = [header OR (of_nat (length b) AND lenMask)] @ b
          \<and> (header OR (of_nat (length b) AND lenMask)) AND bigHeaderBit = 0
          \<and> unat ((header OR (of_nat (length b) AND lenMask)) AND lenMask) = length b)
   \<and> (Commands mcs \<noteq> []
        \<and> encode_range E (Timestamp mcs) start 0 (Commands mcs) (emtpyHeader, []) = (header, b)
        \<and> 15 < length b \<and> length b \<le> 4095
      \<longrightarrow> MIDICommands_encode E mcs start
            = [header OR bigHeaderBit OR (of_nat (length b div 2 ^ 8) AND lenMask),
               of_nat (length b)] @ b
          \<and> (header OR bigHeaderBit OR (of_nat (length b div 2 ^ 8) AND lenMask)) AND bigHeaderBit
              = bigHeaderBit
          \<and> unat ((header OR bigHeaderBit OR (of_nat (length b div 2 ^ 8) AND lenMask)) AND lenMask)
                * 2 ^ 8
              + unat (of_nat (length b) :: byte)
              = length b)"
proof (intro conjI impI)
  show "MIDICommands_encode E \<lparr>Timestamp = t, Commands = []\<rparr> start = [0x00]"
    by (simp add: MIDICommands_encode_def emtpyHeader_def)
next
  assume a: "Commands mcs \<noteq> []
        \<and> encode_range E (Timestamp mcs) start 0 (Commands mcs) (emtpyHeader, []) = (header, b)
        \<and> length b \<le> 15"
  then have h: "header = 0 \<or> header = 0x20" using encode_range_header_cases by blast
  from a show "MIDICommands_encode E mcs start = [header OR (of_nat (length b) AND lenMask)] @ b"
    by (simp add: MIDICommands_encode_def)
  show "(header OR (of_nat (length b) AND lenMask)) AND bigHeaderBit = 0"
    unfolding lenMask_def bigHeaderBit_def by (rule compact_header_bits(1) [OF h])
  have n: "length b \<le> 15" using a by simp
  have "(header OR (of_nat (length b) AND 0x0f)) AND 0x0f = of_nat (length b) AND 0x0f"
    by (rule compact_header_bits(2) [OF h])
  also have "\<dots> = of_nat (length b)" by (rule of_nat_low4 [OF n])
  finally have "(header OR (of_nat (length b) AND lenMask)) AND lenMask = of_nat (length b)"
    unfolding lenMask_def .
  then show "unat ((header OR (of_nat (length b) AND lenMask)) AND lenMask) = length b"
    using a by (simp add: unat_of_nat)
next
  assume a: "Commands mcs \<noteq> []
        \<and> encode_range E (Timestamp mcs) start 0 (Commands mcs) (emtpyHeader, []) = (header, b)
        \<and> 15 < length b \<and> length b \<le> 4095"
  then have h: "header = 0 \<or> header = 0x20" using encode_range_header_cases by blast
  let ?h0 = "header OR bigHeaderBit OR (of_nat (length b div 2 ^ 8) AND lenMask)"
  from a show "MIDICommands_encode E mcs start = [?h0, of_nat (length b)] @ b"
    by (simp add: MIDICommands_encode_def)
  show "?h0 AND bigHeaderBit = bigHeaderBit"
    unfolding lenMask_def bigHeaderBit_def by (rule big_header_bits(1) [OF h])
  have "length b < 16 * 2 ^ 8" using a by simp
  then have "length b div 2 ^ 8 < 16" by (simp only: less_mult_imp_div_less)
  then have d: "length b div 2 ^ 8 \<le> 15" by simp
  have "(header OR 0x80 OR (of_nat (length b div 2 ^ 8) AND 0x0f)) AND 0x0f
      = of_nat (length b div 2 ^ 8) AND 0x0f"
    by (rule big_header_bits(2) [OF h])
  also have "\<dots> = of_nat (length b div 2 ^ 8)" by (rule of_nat_low4 [OF d])
  finally have "?h0 AND lenMask = of_nat (length b div 2 ^ 8)"
    unfolding lenMask_def bigHeaderBit_def .
  then have "unat (?h0 AND lenMask) = length b div 2 ^ 8"
    using d by (simp add: unat_of_nat)
  moreover have "unat (of_nat (length b) :: byte) = length b mod 2 ^ 8"
    by (simp add: unat_of_nat)
  ultimately show "unat (?h0 AND lenMask) * 2 ^ 8 + unat (of_nat (length b) :: byte) = length b"
    by simp
qed

theorem MIDICommands_encode_header_width_witness:
  "MIDICommands_encode (\<lambda>t start d. [0x00])
       \<lparr>Timestamp = 0,
        Commands = [\<lparr>DeltaTime = 0, Payload = [0x90, 0x40, 0x7f]\<rparr>,
                    \<lparr>DeltaTime = 0, Payload = [0x90, 0x43, 0x7f]\<rparr>,
                    \<lparr>DeltaTime = 0, Payload = [0x80, 0x40, 0x00]\<rparr>,
                    \<lparr>DeltaTime = 0, Payload = [0x80, 0x43, 0x00]\<rparr>]\<rparr> 0
     = [0x0f, 0x90, 0x40, 0x7f, 0x00, 0x90, 0x43, 0x7f, 0x00, 0x80, 0x40, 0x00,
        0x00, 0x80, 0x43, 0x00]
   \<and> MIDICommands_encode (\<lambda>t start d. [0x00])
       \<lparr>Timestamp = 0,
        Commands = [\<lparr>DeltaTime = 0, Payload = [0x90, 0x40, 0x7f]\<rparr>,
                    \<lparr>DeltaTime = 0, Payload = [0x90, 0x43, 0x7f]\<rparr>,
                    \<lparr>DeltaTime = 0, Payload = [0x80, 0x40, 0x00]\<rparr>,
                    \<lparr>DeltaTime = 0, Payload = [0xf0, 0x01, 0x02, 0xf7]\<rparr>]\<rparr> 0
     = [0x80, 0x10, 0x90, 0x40, 0x7f, 0x00, 0x90, 0x43, 0x7f, 0x00, 0x80, 0x40, 0x00,
        0x00, 0xf0, 0x01, 0x02, 0xf7]"
proof -
  let ?E = "\<lambda>(t::Time) (start::Time) (d::Duration). [0x00 :: byte]"
  let ?m15 = "\<lparr>Timestamp = 0,
        Commands = [\<lparr>DeltaTime = 0, Payload = [0x90, 0x40, 0x7f]\<rparr>,
                    \<lparr>DeltaTime = 0, Payload = [0x90, 0x43, 0x7f]\<rparr>,
                    \<lparr>DeltaTime = 0, Payload = [0x80, 0x40, 0x00]\<rparr>,
                    \<lparr>DeltaTime = 0, Payload = [0x80, 0x43, 0x00]\<rparr>]\<rparr>"
  let ?m16 = "\<lparr>Timestamp = 0,
        Commands = [\<lparr>DeltaTime = 0, Payload = [0x90, 0x40, 0x7f]\<rparr>,
                    \<lparr>DeltaTime = 0, Payload = [0x90, 0x43, 0x7f]\<rparr>,
                    \<lparr>DeltaTime = 0, Payload = [0x80, 0x40, 0x00]\<rparr>,
                    \<lparr>DeltaTime = 0, Payload = [0xf0, 0x01, 0x02, 0xf7]\<rparr>]\<rparr>"
  let ?b15 = "[0x90, 0x40, 0x7f, 0x00, 0x90, 0x43, 0x7f, 0x00, 0x80, 0x40, 0x00,
        0x00, 0x80, 0x43, 0x00] :: byte list"
  let ?b16 = "[0x90, 0x40, 0x7f, 0x00, 0x90, 0x43, 0x7f, 0x00, 0x80, 0x40, 0x00,
        0x00, 0xf0, 0x01, 0x02, 0xf7] :: byte list"
  have r15: "encode_range ?E (Timestamp ?m15) 0 0 (Commands ?m15) (emtpyHeader, []) = (0, ?b15)"
    by (simp add: MIDIPayload_encode_def emtpyHeader_def)
  have r16: "encode_range ?E (Timestamp ?m16) 0 0 (Commands ?m16) (emtpyHeader, []) = (0, ?b16)"
    by (simp add: MIDIPayload_encode_def emtpyHeader_def)
  have h15: "Commands ?m15 \<noteq> []
      \<and> encode_range ?E (Timestamp ?m15) 0 0 (Commands ?m15) (emtpyHeader, []) = (0, ?b15)
      \<and> length ?b15 \<le> 15"
    using r15 by simp
  have h16: "Commands ?m16 \<noteq> []
      \<and> encode_range ?E (Timestamp ?m16) 0 0 (Commands ?m16) (emtpyHeader, []) = (0, ?b16)
      \<and> 15 < length ?b16 \<and> length ?b16 \<le> 4095"
    using r16 by simp
  from MIDICommands_encode_header_width [where E = ?E and mcs = ?m15 and start = 0
      and header = 0 and b = ?b15, THEN conjunct2, THEN conjunct1, rule_format, OF h15]
  have 1: "MIDICommands_encode ?E ?m15 0 = [0x0f] @ ?b15"
    by (simp add: lenMask_def)
  from MIDICommands_encode_header_width [where E = ?E and mcs = ?m16 and start = 0
      and header = 0 and b = ?b16, THEN conjunct2, THEN conjunct2, rule_format, OF h16]
  have 2: "MIDICommands_encode ?E ?m16 0 = [0x80, 0x10] @ ?b16"
    by (simp add: lenMask_def bigHeaderBit_def)
  from 1 2 show ?thesis by simp
qed

section \<open>Outbound send (C8)\<close>

text \<open>
  C8. A call of \<^verbatim>\<open>SendMIDICommands\<close> adds exactly one to the 16-bit sequence number of the
  session (wrapping at \<open>2 ^ 16\<close>) and changes no other field, so the SSRC and the start
  time are as before; it builds one message with the new sequence number and the SSRC of
  the session, and every registered connection is handed that same message, whatever the
  number of connections, none included. \<^verbatim>\<open>SendMIDIPayload\<close> is \<^verbatim>\<open>SendMIDICommands\<close>
  on a list of one command with the payload.
\<close>

theorem SendMIDICommands_increments_once:
  "SessionSequenceNumber (fst (SendMIDICommands s mcs)) = SessionSequenceNumber s + 1
   \<and> unat (SessionSequenceNumber (fst (SendMIDICommands s mcs)))
       = (unat (SessionSequenceNumber s) + 1) mod 2 ^ 16
   \<and> SessionSSRC (fst (SendMIDICommands s mcs)) = SessionSSRC s
   \<and> StartTime (fst (SendMIDICommands s mcs)) = StartTime s
   \<and> fst (SendMIDICommands s mcs) = s\<lparr>SessionSequenceNumber := SessionSequenceNumber s + 1\<rparr>
   \<and> (\<forall>k. snd (SendMIDICommands s mcs) k
          = map_option
              (\<lambda>v. (v, \<lparr>SequenceNumber = SessionSequenceNumber s + 1, SSRC = SessionSSRC s,
                         MsgCommands = mcs\<rparr>))
              (connections s k))
   \<and> SendMIDIPayload now s payload
       = SendMIDICommands s \<lparr>Timestamp = now, Commands = [\<lparr>DeltaTime = 0, Payload = payload\<rparr>]\<rparr>
   \<and> SessionSequenceNumber (fst (SendMIDICommands (s\<lparr>connections := Map.empty\<rparr>) mcs))
       = SessionSequenceNumber s + 1
   \<and> snd (SendMIDICommands (s\<lparr>connections := Map.empty\<rparr>) mcs) = Map.empty"
  by (simp add: SendMIDICommands_def SendMIDIPayload_def Let_def unat_word_ariths)

section \<open>The registry on an Invitation (C9)\<close>

text \<open>
  C9. On an Invitation for an SSRC that is registered, \<^verbatim>\<open>getConnection\<close> leaves the
  session, and with it the registry, as it was, and returns the stream that was registered;
  the stream objects that existed keep their addresses and contents (the object allocated
  for the argument of \<^verbatim>\<open>LoadOrStore\<close> is not stored). On an Invitation for an SSRC that
  is not registered, the registry gains exactly the key of that SSRC, bound to a new stream
  in state \<open>initial\<close> with that remote SSRC, and nothing else in the session changes.
\<close>

theorem getConnection_Invitation:
  assumes "Cmd msg = Invitation"
  shows "(connections s (ControlSSRC msg) = Some c \<longrightarrow>
            (case getConnection h s msg of
               (h', s', r, found) \<Rightarrow>
                 s' = s \<and> r = Some c \<and> found \<and> take (length h) h' = h))
       \<and> (connections s (ControlSSRC msg) = None \<longrightarrow>
            (case getConnection h s msg of
               (h', s', r, found) \<Rightarrow>
                 r = Some (length h) \<and> found
                 \<and> s' = s\<lparr>connections := (connections s)(ControlSSRC msg \<mapsto> length h)\<rparr>
                 \<and> dom (connections s') = insert (ControlSSRC msg) (dom (connections s))
                 \<and> h' ! length h
                     = \<lparr>Host = \<lparr>HostBonjourName = Name msg\<rparr>, RemoteSSRC = ControlSSRC msg,
                        State = initial\<rparr>
                 \<and> take (length h) h' = h))"
  using assms
  by (simp add: getConnection_def createConnection_def LoadOrStore_def Let_def)

theorem getConnection_Invitation_witness:
  "Cmd \<lparr>Cmd = Invitation, ControlSSRC = 0xAA, Name = ''peer''\<rparr> = Invitation
   \<and> getConnection
        [\<lparr>Host = \<lparr>HostBonjourName = ''first''\<rparr>, RemoteSSRC = 0xAA, State = established\<rparr>]
        \<lparr>LocalName = ''local'', BonjourName = ''svc'', Port = 5004, SessionSSRC = 1,
         SessionSequenceNumber = 7, StartTime = 0, connections = [0xAA \<mapsto> 0]\<rparr>
        \<lparr>Cmd = Invitation, ControlSSRC = 0xAA, Name = ''peer''\<rparr>
     = ([\<lparr>Host = \<lparr>HostBonjourName = ''first''\<rparr>, RemoteSSRC = 0xAA, State = established\<rparr>,
         \<lparr>Host = \<lparr>HostBonjourName = ''peer''\<rparr>, RemoteSSRC = 0xAA, State = initial\<rparr>],
        \<lparr>LocalName = ''local'', BonjourName = ''svc'', Port = 5004, SessionSSRC = 1,
         SessionSequenceNumber = 7, StartTime = 0, connections = [0xAA \<mapsto> 0]\<rparr>,
        Some 0, True)
   \<and> getConnection
        [\<lparr>Host = \<lparr>HostBonjourName = ''first''\<rparr>, RemoteSSRC = 0xAA, State = established\<rparr>]
        \<lparr>LocalName = ''local'', BonjourName = ''svc'', Port = 5004, SessionSSRC = 1,
         SessionSequenceNumber = 7, StartTime = 0, connections = [0xAA \<mapsto> 0]\<rparr>
        \<lparr>Cmd = Invitation, ControlSSRC = 0xBB, Name = ''peer''\<rparr>
     = ([\<lparr>Host = \<lparr>HostBonjourName = ''first''\<rparr>, RemoteSSRC = 0xAA, State = established\<rparr>,
         \<lparr>Host = \<lparr>HostBonjourName = ''peer''\<rparr>, RemoteSSRC = 0xBB, State = initial\<rparr>],
        \<lparr>LocalName = ''local'', BonjourName = ''svc'', Port = 5004, SessionSSRC = 1,
         SessionSequenceNumber = 7, StartTime = 0, connections = [0xAA \<mapsto> 0, 0xBB \<mapsto> 1]\<rparr>,
        Some 1, True)"
proof -
  let ?h = "[\<lparr>Host = \<lparr>HostBonjourName = ''first''\<rparr>, RemoteSSRC = 0xAA, State = established\<rparr>]"
  let ?s = "\<lparr>LocalName = ''local'', BonjourName = ''svc'', Port = 5004, SessionSSRC = 1,
         SessionSequenceNumber = 7, StartTime = 0, connections = [0xAA \<mapsto> (0::nat)]\<rparr>"
  let ?known = "\<lparr>Cmd = Invitation, ControlSSRC = 0xAA, Name = ''peer''\<rparr>"
  let ?unknown = "\<lparr>Cmd = Invitation, ControlSSRC = 0xBB, Name = ''peer''\<rparr>"
  have inv: "Cmd ?known = Invitation" "Cmd ?unknown = Invitation" by simp_all
  have known: "connections ?s (ControlSSRC ?known) = Some 0" by simp
  have unknown: "connections ?s (ControlSSRC ?unknown) = None" by simp
  from getConnection_Invitation [OF inv(1), of ?s 0 ?h, THEN conjunct1, rule_format, OF known]
  have 1: "getConnection ?h ?s ?known = (?h @ [\<lparr>Host = \<lparr>HostBonjourName = ''peer''\<rparr>,
             RemoteSSRC = 0xAA, State = initial\<rparr>], ?s, Some 0, True)"
    by (simp add: getConnection_def createConnection_def LoadOrStore_def Let_def)
  from getConnection_Invitation [OF inv(2), of ?s 0 ?h, THEN conjunct2, rule_format, OF unknown]
  have 2: "getConnection ?h ?s ?unknown = (?h @ [\<lparr>Host = \<lparr>HostBonjourName = ''peer''\<rparr>,
             RemoteSSRC = 0xBB, State = initial\<rparr>],
             ?s\<lparr>connections := [0xAA \<mapsto> 0, 0xBB \<mapsto> 1]\<rparr>, Some 1, True)"
    by (simp add: getConnection_def createConnection_def LoadOrStore_def Let_def)
  from inv 1 2 show ?thesis by simp
qed

section \<open>The bytes Decode does not read (C10)\<close>

lemma decodeDeltaTime_agree:
  assumes "length b1 = length b2" and "\<forall>i. 12 \<le> i \<and> i < length b1 \<longrightarrow> b1 ! i = b2 ! i"
  shows "12 \<le> offset \<Longrightarrow> decodeDeltaTime k b1 offset acc = decodeDeltaTime k b2 offset acc"
proof (induction k arbitrary: offset acc)
  case 0
  then show ?case by simp
next
  case (Suc k)
  from Suc.prems have "12 \<le> offset + 1" by simp
  note IH = Suc.IH [OF this]
  show ?case
  proof (cases "length b1 \<le> offset")
    case True
    with assms(1) show ?thesis by simp
  next
    case False
    with assms Suc.prems have "b1 ! offset = b2 ! offset" by simp
    with False assms(1) IH show ?thesis by (simp add: Let_def)
  qed
qed

lemma sysexScan_agree:
  assumes "length b1 = length b2" and "\<forall>i. 12 \<le> i \<and> i < length b1 \<longrightarrow> b1 ! i = b2 ! i"
    and "12 \<le> offset"
  shows "sysexScan b1 offset d = sysexScan b2 offset d"
  using assms
proof (induction b1 offset d rule: sysexScan.induct)
  case (1 buffer offset dataLength)
  show ?case
  proof (cases "length buffer > offset + dataLength
         \<and> \<not> (buffer ! (offset + dataLength) AND 0x80 > 0x00)")
    case True
    with "1.prems" have same: "buffer ! (offset + dataLength) = b2 ! (offset + dataLength)" by simp
    from "1.IH" [OF True "1.prems"]
    have "sysexScan buffer offset (dataLength + 1) = sysexScan b2 offset (dataLength + 1)" .
    with True same "1.prems"(1) show ?thesis
      by (subst sysexScan.simps, subst (2) sysexScan.simps) simp
  next
    case False
    show ?thesis
    proof (cases "length buffer > offset + dataLength")
      case True
      with "1.prems" have "buffer ! (offset + dataLength) = b2 ! (offset + dataLength)" by simp
      with False True "1.prems"(1) show ?thesis
        by (subst sysexScan.simps, subst (2) sysexScan.simps) simp
    next
      case short: False
      with "1.prems"(1) show ?thesis
        by (subst sysexScan.simps, subst (2) sysexScan.simps) simp
    qed
  qed
qed

lemma sysexDataLength_agree:
  assumes "length b1 = length b2" and "\<forall>i. 12 \<le> i \<and> i < length b1 \<longrightarrow> b1 ! i = b2 ! i"
    and "12 \<le> offset"
  shows "sysexDataLength b1 offset = sysexDataLength b2 offset"
proof -
  have s: "sysexScan b1 offset 0 = sysexScan b2 offset 0"
    using assms by (rule sysexScan_agree)
  show ?thesis
  proof (cases "length b1 \<le> offset + sysexScan b1 offset 0")
    case True
    with s assms(1) show ?thesis by (simp add: sysexDataLength_def)
  next
    case False
    with assms(2,3) have "b1 ! (offset + sysexScan b1 offset 0) = b2 ! (offset + sysexScan b1 offset 0)"
      by simp
    with s assms(1) show ?thesis by (simp add: sysexDataLength_def Let_def)
  qed
qed

lemma drop_agree:
  assumes "length b1 = length b2" and "\<forall>i. 12 \<le> i \<and> i < length b1 \<longrightarrow> b1 ! i = b2 ! i"
    and "12 \<le> offset"
  shows "drop offset b1 = drop offset b2"
  using assms by (intro nth_equalityI) auto

lemma readDeltaTime_offset_mono:
  "readDeltaTime buffer Z st = Returns (d, o1) \<Longrightarrow> st_offset st \<le> o1"
  by (auto simp: readDeltaTime_def split: if_splits dest: decodeDeltaTime_offset_mono)

lemma parseMIDIList_body_offset_mono:
  "parseMIDIList_body buffer Z st = Continue st' \<Longrightarrow> st_offset st \<le> st_offset st'"
  by (auto simp: parseMIDIList_body_def Let_def split: outcome.splits if_splits prod.splits
      dest!: readDeltaTime_offset_mono)

lemma parseMIDIList_body_agree:
  assumes len: "length b1 = length b2"
    and nth: "\<forall>i. 12 \<le> i \<and> i < length b1 \<longrightarrow> b1 ! i = b2 ! i"
    and off: "12 \<le> st_offset st"
  shows "parseMIDIList_body b1 Z st = parseMIDIList_body b2 Z st"
proof -
  have rd: "readDeltaTime b1 Z st = readDeltaTime b2 Z st"
    using decodeDeltaTime_agree [OF len nth off] by (simp add: readDeltaTime_def)
  show ?thesis
  proof (cases "readDeltaTime b1 Z st")
    case Panics
    with rd show ?thesis by (simp add: parseMIDIList_body_def)
  next
    case (Returns r)
    obtain d o1 where r: "r = (d, o1)" by (cases r)
    from Returns r have o1: "12 \<le> o1" using readDeltaTime_offset_mono off by fastforce
    show ?thesis
    proof (cases "length b1 \<le> o1")
      case True
      with Returns r rd len show ?thesis by (simp add: parseMIDIList_body_def)
    next
      case False
      with nth o1 have same: "b1 ! o1 = b2 ! o1" by simp
      have dl: "sysexDataLength b1 o1 = sysexDataLength b2 o1"
        "sysexDataLength b1 (o1 + 1) = sysexDataLength b2 (o1 + 1)"
        using sysexDataLength_agree [OF len nth] o1 by simp_all
      have dr: "drop o1 b1 = drop o1 b2" "drop (o1 + 1) b1 = drop (o1 + 1) b2"
        using drop_agree [OF len nth] o1 by simp_all
      from Returns r rd [symmetric] len [symmetric] False same [symmetric] dl [symmetric]
        dr [symmetric]
      show ?thesis
        by (simp add: parseMIDIList_body_def Let_def cong: outcome.case_cong if_cong)
    qed
  qed
qed

lemma parseMIDIList_loop_agree:
  assumes "length b1 = length b2"
    and "\<forall>i. 12 \<le> i \<and> i < length b1 \<longrightarrow> b1 ! i = b2 ! i"
    and "12 \<le> st_offset st"
  shows "parseMIDIList_loop b1 list_end Z st = parseMIDIList_loop b2 list_end Z st"
  using assms
proof (induction b1 list_end Z st rule: parseMIDIList_loop.induct)
  case (1 buffer list_end Z st)
  have body: "parseMIDIList_body buffer Z st = parseMIDIList_body b2 Z st"
    using "1.prems" by (rule parseMIDIList_body_agree)
  note unfold = parseMIDIList_loop.simps [of buffer list_end Z st]
    parseMIDIList_loop.simps [of b2 list_end Z st]
  show ?case
  proof (cases "st_offset st < list_end")
    case False
    then show ?thesis
      by (simp add: unfold)
  next
    case True
    show ?thesis
    proof (cases "parseMIDIList_body buffer Z st")
      case (Continue st')
      then have "12 \<le> st_offset st'"
        using parseMIDIList_body_offset_mono "1.prems"(3) by fastforce
      moreover have "parseMIDIList_body b2 Z st = Continue st'" using body Continue by simp
      ultimately show ?thesis
        using "1.IH" [OF True Continue "1.prems"(1,2)] Continue True by (simp add: unfold)
    next
      case (Return r)
      moreover have "parseMIDIList_body b2 Z st = Return r" using body Return by simp
      ultimately show ?thesis using True by (simp add: unfold)
    next
      case IterationPanics
      moreover have "parseMIDIList_body b2 Z st = IterationPanics"
        using body IterationPanics by simp
      ultimately show ?thesis using True by (simp add: unfold)
    qed
  qed
qed

lemma decodeMIDIListHeader_listStart:
  "decodeMIDIListHeader buffer spare = Returns (hdr, listStart) \<Longrightarrow> 12 \<le> listStart"
  by (auto simp: decodeMIDIListHeader_def Let_def split: if_splits)

lemma decodeMIDIListHeader_agree:
  assumes len: "length b1 = length b2"
    and nth: "\<forall>i. 12 \<le> i \<and> i < length b1 \<longrightarrow> b1 ! i = b2 ! i"
  shows "decodeMIDIListHeader b1 spare = decodeMIDIListHeader b2 spare"
proof (cases "length b1 \<le> 12")
  case True
  with len show ?thesis by (simp add: decodeMIDIListHeader_def)
next
  case False
  with nth have "b2 ! 12 = b1 ! 12" by simp
  moreover have "drop 12 b1 = drop 12 b2" using drop_agree [OF len nth] by simp
  then have "drop 12 (b2 @ spare) = drop 12 (b1 @ spare)" using len by simp
  ultimately show ?thesis
    using len [symmetric] by (simp add: decodeMIDIListHeader_def Let_def cong: if_cong)
qed

text \<open>
  C10. Two buffers of equal length that agree everywhere except in byte 0, in the marker bit
  of byte 1 (their low seven bits of byte 1 are equal) and in bytes 4 to 7 have the same
  outcome of \<^verbatim>\<open>Decode\<close>: the same error, the same message (sequence number, SSRC, commands
  with payloads and delta-times) or the same panic.
\<close>

theorem Decode_ignores_version_marker_timestamp:
  assumes len: "length b1 = length b2"
    and nth: "\<forall>i. i < length b1 \<and> i \<notin> {0, 1, 4, 5, 6, 7} \<longrightarrow> b1 ! i = b2 ! i"
    and pt: "b1 ! 1 AND ptMask = b2 ! 1 AND ptMask"
  shows "Decode now b1 spare = Decode now b2 spare"
proof (cases "length b1 < 12")
  case True
  with len show ?thesis by (simp add: Decode_def minimumBufferLength_def)
next
  case False
  from nth have tail: "\<forall>i. 12 \<le> i \<and> i < length b1 \<longrightarrow> b1 ! i = b2 ! i" by auto
  have seq: "take 2 (drop 2 b1) = take 2 (drop 2 b2)"
    using False len nth by (intro nth_equalityI) auto
  have ssrc: "take 4 (drop 8 b1) = take 4 (drop 8 b2)"
    using False len nth by (intro nth_equalityI) auto
  have hdr: "decodeMIDIListHeader b1 spare = decodeMIDIListHeader b2 spare"
    using len tail by (rule decodeMIDIListHeader_agree)
  have parse: "parseMIDIList b1 listStart h = parseMIDIList b2 listStart h"
    if "decodeMIDIListHeader b2 spare = Returns (h, listStart)" for h listStart
    unfolding parseMIDIList_def
    using len tail decodeMIDIListHeader_listStart [OF that]
    by (intro parseMIDIList_loop_agree) simp_all
  show ?thesis
  proof (cases "decodeMIDIListHeader b2 spare")
    case Panics
    with False len seq ssrc pt hdr show ?thesis
      by (simp add: Decode_def minimumBufferLength_def Valid_def Let_def)
  next
    case (Returns r)
    obtain h listStart where r: "r = (h, listStart)" by (cases r)
    from Returns r parse have "parseMIDIList b1 listStart h = parseMIDIList b2 listStart h" by simp
    with Returns r False len seq ssrc pt hdr show ?thesis
      by (simp add: Decode_def minimumBufferLength_def Valid_def Let_def)
  qed
qed

theorem Decode_ignores_version_marker_timestamp_witness:
  "Decode 0 [0x80, 0x61, 0x12, 0x34, 0, 0, 0, 0, 0xde, 0xad, 0xbe, 0xef,
             0x03, 0x90, 0x40, 0x7f] []
     = Decode 0 [0x3f, 0xe1, 0x12, 0x34, 0xff, 0xfe, 0xfd, 0xfc, 0xde, 0xad, 0xbe, 0xef,
                 0x03, 0x90, 0x40, 0x7f] []
   \<and> Decode 0 [0x3f, 0xe1, 0x12, 0x34, 0xff, 0xfe, 0xfd, 0xfc, 0xde, 0xad, 0xbe, 0xef,
                 0x03, 0x90, 0x40, 0x7f] []
     = Returns (\<lparr>SequenceNumber = 0x1234, SSRC = 0xdeadbeef,
                 MsgCommands = \<lparr>Timestamp = 0,
                   Commands = [\<lparr>DeltaTime = 0, Payload = [0x90, 0x40, 0x7f]\<rparr>]\<rparr>\<rparr>, None)"
proof -
  let ?b1 = "[0x80, 0x61, 0x12, 0x34, 0, 0, 0, 0, 0xde, 0xad, 0xbe, 0xef,
             0x03, 0x90, 0x40, 0x7f] :: byte list"
  let ?b2 = "[0x3f, 0xe1, 0x12, 0x34, 0xff, 0xfe, 0xfd, 0xfc, 0xde, 0xad, 0xbe, 0xef,
                 0x03, 0x90, 0x40, 0x7f] :: byte list"
  have len: "length ?b1 = length ?b2" by simp
  have nth: "\<forall>i. i < length ?b1 \<and> i \<notin> {0, 1, 4, 5, 6, 7} \<longrightarrow> ?b1 ! i = ?b2 ! i"
    by (simp add: nth_Cons' less_Suc_eq eval_nat_numeral)
  have pt: "?b1 ! 1 AND ptMask = ?b2 ! 1 AND ptMask" by (simp add: ptMask_def)
  have val: "Decode 0 ?b2 []
     = Returns (\<lparr>SequenceNumber = 0x1234, SSRC = 0xdeadbeef,
                 MsgCommands = \<lparr>Timestamp = 0,
                   Commands = [\<lparr>DeltaTime = 0, Payload = [0x90, 0x40, 0x7f]\<rparr>]\<rparr>\<rparr>, None)"
    by code_simp
  from Decode_ignores_version_marker_timestamp [OF len nth pt, of 0 "[]"] val
  show ?thesis by simp
qed

section \<open>Round trip of Encode and Decode (C1)\<close>

lemma encode_range_rest:
  "0 < i \<Longrightarrow> encode_range E ts start i cs (h, b) = (h, b @ encoded_rest E ts start cs)"
proof (induction cs arbitrary: i b)
  case Nil
  then show ?case by (simp add: encoded_rest_def)
next
  case (Cons mc cs)
  then show ?case by (simp add: encoded_rest_def MIDIPayload_encode_def)
qed

lemma encode_range_first:
  "encode_range E ts start 0 (c # cs) (h, b)
     = (if DeltaTime c > 0 then h OR zeroDeltaBit else h,
        b @ (if DeltaTime c > 0 then E ts start (DeltaTime c) else []) @ Payload c
          @ encoded_rest E ts start cs)"
  by (simp add: encode_range_rest MIDIPayload_encode_def)

lemma varint_octets_complete_gen:
  "v \<noteq> [] \<Longrightarrow> length v \<le> n \<Longrightarrow> \<forall>b \<in> set (butlast v). b AND 0x80 \<noteq> 0
   \<Longrightarrow> (length v < n \<longrightarrow> last v AND 0x80 = 0) \<Longrightarrow> varint_octets n (v @ post) = v"
proof (induction n arbitrary: v)
  case 0
  then show ?case by simp
next
  case (Suc n)
  then obtain b v' where v: "v = b # v'" by (cases v) auto
  show ?case
  proof (cases "v' = []")
    case True
    with Suc.prems v show ?thesis by (cases n) auto
  next
    case False
    with Suc.prems v have "varint_octets n (v' @ post) = v'"
      by (intro Suc.IH) auto
    moreover from False Suc.prems(3) v have "b AND 0x80 \<noteq> 0" by simp
    ultimately show ?thesis using v by simp
  qed
qed

lemma decodeDeltaTime_complete_varint:
  assumes "complete_varint v" and "drop offset buffer = v @ post"
  shows "decodeDeltaTime 4 buffer offset 0 = Returns (word_of_int (base128 v), offset + length v)"
proof -
  from assms(1) have "varint_octets 4 (v @ post) = v"
    unfolding complete_varint_def by (intro varint_octets_complete_gen) auto
  with assms show ?thesis
    by (auto simp: decodeDeltaTime_varint Let_def complete_varint_def)
qed

lemma sysexScan_data:
  assumes "drop (offset + k) buffer = data @ t # rest"
    and "\<forall>d \<in> set data. d AND 0x80 = 0" and "t AND 0x80 \<noteq> 0"
  shows "sysexScan buffer offset k = k + length data"
  using assms
proof (induction data arbitrary: k)
  case Nil
  then have "offset + k < length buffer" and "buffer ! (offset + k) = t"
    by (metis append_Nil drop_eq_Nil2 list.distinct(1) not_le,
        metis append_Nil hd_drop_conv_nth drop_eq_Nil2 list.distinct(1) list.sel(1) not_le)
  moreover from Nil.prems(3) have "t AND 0x80 > 0" by (simp add: word_greater_zero_iff)
  ultimately show ?case by (subst sysexScan.simps) simp
next
  case (Cons d data)
  then have lt: "offset + k < length buffer" and hd: "buffer ! (offset + k) = d"
    by (metis drop_eq_Nil2 append_Cons list.distinct(1) not_le,
        metis hd_drop_conv_nth drop_eq_Nil2 append_Cons list.distinct(1) list.sel(1) not_le)
  from Cons.prems(1) have "drop (offset + (k + 1)) buffer = data @ t # rest"
    by (metis Suc_eq_plus1 add_Suc_right drop_Suc append_Cons list.sel(3) tl_drop)
  from Cons.IH [OF this] Cons.prems(2,3)
  have "sysexScan buffer offset (k + 1) = k + 1 + length data" by simp
  moreover from Cons.prems(2) have "\<not> (d AND 0x80 > 0)" by simp
  ultimately show ?case using lt hd by (subst sysexScan.simps) simp
qed

lemma drop_eq_Cons:
  assumes "drop n xs = y # ys"
  shows "n < length xs" and "xs ! n = y" and "drop (Suc n) xs = ys"
    and "length xs = Suc (n + length ys)"
proof -
  show lt: "n < length xs" using assms by (metis drop_eq_Nil2 list.distinct(1) not_le)
  from Cons_nth_drop_Suc [OF lt] assms show "xs ! n = y" and "drop (Suc n) xs = ys" by simp_all
  from assms have "length (drop n xs) = Suc (length ys)" by simp
  with lt show "length xs = Suc (n + length ys)" by simp
qed

lemma nth_of_drop:
  assumes "drop n xs = ys @ z # zs"
  shows "xs ! (n + length ys) = z"
proof -
  have "drop (n + length ys) xs = drop (length ys) (drop n xs)" by (simp add: add.commute)
  also have "\<dots> = z # zs" using assms by simp
  finally show ?thesis by (rule drop_eq_Cons(2))
qed

lemma sysexDataLength_complete:
  assumes dr: "drop (Suc o1) buffer = data @ [0xf7] @ post"
    and data: "\<forall>d \<in> set data. d AND 0x80 = 0"
  shows "sysexDataLength buffer (Suc o1) = Returns (int (length data) + 1)"
proof -
  have "drop (Suc o1 + 0) buffer = data @ 0xf7 # post" using dr by simp
  from sysexScan_data [OF this data] have scan: "sysexScan buffer (Suc o1) 0 = length data"
    by simp
  have t: "buffer ! (Suc o1 + length data) = 0xf7"
    using dr by (intro nth_of_drop [where zs = post]) simp
  have "length (drop (Suc o1) buffer) = length data + 1 + length post" using dr by simp
  then have len: "Suc o1 + length data < length buffer" by simp
  show ?thesis
    using scan t len by (simp add: sysexDataLength_def Let_def)
qed

lemma parseMIDIList_body_sysex:
  assumes rd: "readDeltaTime buffer Z st = Returns (d, o1)"
    and dr: "drop o1 buffer = 0xf0 # data @ [0xf7] @ post"
    and data: "\<forall>d \<in> set data. d AND 0x80 = 0"
  shows "parseMIDIList_body buffer Z st
     = Continue \<lparr>st_offset = o1 + length (0xf0 # data @ [0xf7]),
          st_commands = st_commands st
            @ [\<lparr>DeltaTime = Millisecond * uint d, Payload = 0xf0 # data @ [0xf7]\<rparr>],
          st_lastStatusByte = 0xf0\<rparr>"
proof -
  note f = drop_eq_Cons [OF dr]
  have sdl: "sysexDataLength buffer (Suc o1) = Returns (int (length data) + 1)"
    using f(3) data by (rule sysexDataLength_complete)
  have len: "\<not> int (length buffer) < int (Suc o1) + (int (length data) + 1)"
    using f(4) by simp
  have tk: "take (Suc (length data)) (drop (Suc o1) buffer) = data @ [0xf7]"
    using f(3) by simp
  have pos: "0 < int (length data) + 1" by simp
  have nt: "nat (int (length data) + 1) = Suc (length data)" by simp
  have own: "buffer ! o1 AND 0x80 = 0x80" using f(2) by simp
  have mn: "min (length buffer - Suc o1) (Suc (length data)) = Suc (length data)"
    using f(4) by simp
  show ?thesis
    unfolding parseMIDIList_body_def rd
    using f(1) own
    apply (simp add: Let_def f(2) sdl len del: of_nat_Suc of_nat_add)
    apply (simp add: pos nt tk mn del: of_nat_Suc of_nat_add)
    done
qed

lemma parseMIDIList_body_fixed:
  assumes rd: "readDeltaTime buffer Z st = Returns (d, o1)"
    and dr: "drop o1 buffer = s # ds @ post"
    and hi: "s AND 0x80 = 0x80" and ns: "s \<noteq> 0xf0"
    and n: "int (length ds) = max 0 (GetDataLength s)"
  shows "parseMIDIList_body buffer Z st
     = Continue \<lparr>st_offset = o1 + length (s # ds),
          st_commands = st_commands st
            @ [\<lparr>DeltaTime = Millisecond * uint d, Payload = s # ds\<rparr>],
          st_lastStatusByte = s\<rparr>"
proof -
  note f = drop_eq_Cons [OF dr]
  have own: "buffer ! o1 AND 0x80 = 0x80" using f(2) hi by simp
  have tk: "take (length ds) (drop (Suc o1) buffer) = ds"
    using f(3) by simp
  show ?thesis
  proof (cases "GetDataLength s > 0")
    case True
    with n have nt: "nat (GetDataLength s) = length ds" by simp
    have len: "\<not> int (length buffer) < int (Suc o1) + GetDataLength s"
      using f(4) n True by simp
    show ?thesis
      unfolding parseMIDIList_body_def rd
      using f(1) own ns True
      by (simp add: Let_def f(2) len nt tk del: of_nat_Suc of_nat_add)
  next
    case False
    with n have e: "ds = []" by simp
    have len: "\<not> int (length buffer) < int (Suc o1) + GetDataLength s"
      using f(4) False by simp
    show ?thesis
      unfolding parseMIDIList_body_def rd
      using f(1) own ns False
      by (simp add: Let_def f(2) len e del: of_nat_Suc of_nat_add)
  qed
qed

lemma parseMIDIList_body_complete_command:
  assumes cc: "complete_command p"
    and rd: "readDeltaTime buffer Z st = Returns (d, o1)"
    and dr: "drop o1 buffer = p @ post"
  shows "parseMIDIList_body buffer Z st
     = Continue \<lparr>st_offset = o1 + length p,
          st_commands = st_commands st @ [\<lparr>DeltaTime = Millisecond * uint d, Payload = p\<rparr>],
          st_lastStatusByte = hd p\<rparr>"
proof -
  from cc obtain s ds where p: "p = s # ds" and hi: "s AND 0x80 = 0x80"
    by (auto simp: complete_command_def split: list.splits)
  show ?thesis
  proof (cases "s = 0xf0")
    case True
    with cc p have dsne: "ds \<noteq> []" and lst: "last ds = 0xf7"
      and data: "\<forall>d \<in> set (butlast ds). d AND 0x80 = 0"
      by (simp_all add: complete_command_def)
    have ds: "ds = butlast ds @ [0xf7]"
      using append_butlast_last_id [OF dsne] lst by simp
    have "drop o1 buffer = 0xf0 # butlast ds @ [0xf7] @ post"
      using dr p True ds by (metis append_Cons append.assoc)
    from parseMIDIList_body_sysex [OF rd this data] show ?thesis
      unfolding p True using ds by (metis list.sel(1))
  next
    case False
    from cc p False have n: "int (length ds) = max 0 (GetDataLength s)"
      by (simp add: complete_command_def)
    have "drop o1 buffer = s # ds @ post" using dr p by simp
    from parseMIDIList_body_fixed [OF rd this hi False n] show ?thesis
      unfolding p by simp
  qed
qed

lemma encoded_rest_Cons:
  "encoded_rest E ts start (c # cs)
     = E ts start (DeltaTime c) @ Payload c @ encoded_rest E ts start cs"
  by (simp add: encoded_rest_def)

lemma complete_command_nonempty: "complete_command p \<Longrightarrow> p \<noteq> []"
  by (auto simp: complete_command_def)

lemma parseMIDIList_loop_encoded_rest:
  assumes wfE: "\<forall>t s d. complete_varint (E t s d)"
  shows "\<forall>c \<in> set cs. complete_command (Payload c) \<Longrightarrow> st_commands st \<noteq> []
    \<Longrightarrow> drop (st_offset st) buffer = encoded_rest E ts start cs
    \<Longrightarrow> \<exists>cs'. parseMIDIList_loop buffer (length buffer) Z st
                 = Returns (st_commands st @ cs', None)
             \<and> map Payload cs' = map Payload cs"
proof (induction cs arbitrary: st)
  case Nil
  then have "length buffer \<le> st_offset st" by (simp add: encoded_rest_def)
  then have "parseMIDIList_loop buffer (length buffer) Z st = Returns (st_commands st, None)"
    by (subst parseMIDIList_loop.simps) simp
  then show ?case by simp
next
  case (Cons c cs)
  let ?v = "E ts start (DeltaTime c)"
  let ?p = "Payload c"
  let ?rest = "encoded_rest E ts start cs"
  from wfE have v: "complete_varint ?v" by simp
  from Cons.prems(1) have p: "complete_command ?p" by simp
  have dr: "drop (st_offset st) buffer = ?v @ (?p @ ?rest)"
    using Cons.prems(3) by (simp add: encoded_rest_Cons)
  from v have "?v \<noteq> []" by (simp add: complete_varint_def)
  with dr have lt: "st_offset st < length buffer"
    by (metis append_is_Nil_conv drop_eq_Nil2 not_le)
  have rd: "readDeltaTime buffer Z st
      = Returns (word_of_int (base128 ?v), st_offset st + length ?v)"
    using Cons.prems(2) decodeDeltaTime_complete_varint [OF v dr]
    by (simp add: readDeltaTime_def)
  have "drop (st_offset st + length ?v) buffer = drop (length ?v) (drop (st_offset st) buffer)"
    by (simp add: add.commute)
  then have dr2: "drop (st_offset st + length ?v) buffer = ?p @ ?rest"
    using dr by simp
  define st' where "st' = \<lparr>st_offset = st_offset st + length ?v + length ?p,
      st_commands = st_commands st
        @ [\<lparr>DeltaTime = Millisecond * uint (word_of_int (base128 ?v) :: 32 word), Payload = ?p\<rparr>],
      st_lastStatusByte = hd ?p\<rparr>"
  have body: "parseMIDIList_body buffer Z st = Continue st'"
    unfolding st'_def by (rule parseMIDIList_body_complete_command [OF p rd dr2])
  have "drop (st_offset st') buffer = drop (length ?p) (drop (st_offset st + length ?v) buffer)"
    by (simp add: st'_def add.commute)
  then have dr3: "drop (st_offset st') buffer = ?rest" using dr2 by simp
  have ne: "st_commands st' \<noteq> []" by (simp add: st'_def)
  from Cons.prems(1) have "\<forall>c \<in> set cs. complete_command (Payload c)" by simp
  from Cons.IH [OF this ne dr3]
  obtain cs' where cs': "parseMIDIList_loop buffer (length buffer) Z st'
        = Returns (st_commands st' @ cs', None)" "map Payload cs' = map Payload cs"
    by blast
  have "parseMIDIList_loop buffer (length buffer) Z st
      = parseMIDIList_loop buffer (length buffer) Z st'"
    using lt body by (subst parseMIDIList_loop.simps) simp
  with cs' have "parseMIDIList_loop buffer (length buffer) Z st
      = Returns (st_commands st
          @ (\<lparr>DeltaTime = Millisecond * uint (word_of_int (base128 ?v) :: 32 word), Payload = ?p\<rparr>
             # cs'), None)"
    by (simp add: st'_def)
  moreover have "map Payload
      (\<lparr>DeltaTime = Millisecond * uint (word_of_int (base128 ?v) :: 32 word), Payload = ?p\<rparr> # cs')
      = map Payload (c # cs)"
    using cs'(2) by simp
  ultimately show ?case by blast
qed

lemma parseMIDIList_encoded_list:
  assumes wfE: "\<forall>t s d. complete_varint (E t s d)"
    and cc: "\<forall>c \<in> set (c0 # cs). complete_command (Payload c)"
    and dr: "drop listStart buffer
        = (if DeltaTime c0 > 0 then E ts start (DeltaTime c0) else []) @ Payload c0
          @ encoded_rest E ts start cs"
    and le: "listStart + unat (Len hdr) = length buffer"
    and z: "preceedingDeltaTime hdr = (DeltaTime c0 > 0)"
  shows "\<exists>cs'. parseMIDIList buffer listStart hdr = Returns (cs', None)
           \<and> map Payload cs' = map Payload (c0 # cs)"
proof -
  let ?Z = "preceedingDeltaTime hdr"
  let ?st = "\<lparr>st_offset = listStart, st_commands = [], st_lastStatusByte = 0\<rparr>"
  let ?p = "Payload c0"
  let ?rest = "encoded_rest E ts start cs"
  from cc have p: "complete_command ?p" by simp
  obtain d o1 where rd: "readDeltaTime buffer ?Z ?st = Returns (d, o1)"
    and dr1: "drop o1 buffer = ?p @ ?rest" and o1: "listStart \<le> o1"
  proof (cases "DeltaTime c0 > 0")
    case True
    let ?v = "E ts start (DeltaTime c0)"
    from wfE have v: "complete_varint ?v" by simp
    from dr True have dr': "drop listStart buffer = ?v @ (?p @ ?rest)" by simp
    have "readDeltaTime buffer ?Z ?st
        = Returns (word_of_int (base128 ?v), listStart + length ?v)"
      using True z decodeDeltaTime_complete_varint [OF v dr'] by (simp add: readDeltaTime_def)
    moreover have "drop (listStart + length ?v) buffer
        = drop (length ?v) (drop listStart buffer)"
      by (simp add: add.commute)
    then have "drop (listStart + length ?v) buffer = ?p @ ?rest" using dr' by simp
    ultimately show ?thesis using that by simp
  next
    case False
    then have "readDeltaTime buffer ?Z ?st = Returns (0, listStart)"
      using z by (simp add: readDeltaTime_def)
    moreover from dr False have "drop listStart buffer = ?p @ ?rest" by simp
    ultimately show ?thesis using that by simp
  qed
  define st' where "st' = \<lparr>st_offset = o1 + length ?p,
      st_commands = st_commands ?st @ [\<lparr>DeltaTime = Millisecond * uint d, Payload = ?p\<rparr>],
      st_lastStatusByte = hd ?p\<rparr>"
  have body: "parseMIDIList_body buffer ?Z ?st = Continue st'"
    unfolding st'_def by (rule parseMIDIList_body_complete_command [OF p rd dr1])
  from p have "?p \<noteq> []" by (rule complete_command_nonempty)
  with dr1 have "o1 < length buffer"
    by (metis append_is_Nil_conv drop_eq_Nil2 not_le)
  with o1 have lt: "st_offset ?st < listStart + unat (Len hdr)" using le by simp
  have "drop (st_offset st') buffer = drop (length ?p) (drop o1 buffer)"
    by (simp add: st'_def add.commute)
  then have dr2: "drop (st_offset st') buffer = ?rest" using dr1 by simp
  have ne: "st_commands st' \<noteq> []" by (simp add: st'_def)
  from cc have "\<forall>c \<in> set cs. complete_command (Payload c)" by simp
  from parseMIDIList_loop_encoded_rest [OF wfE this ne dr2, of ?Z]
  obtain cs' where cs': "parseMIDIList_loop buffer (length buffer) ?Z st'
        = Returns (st_commands st' @ cs', None)" "map Payload cs' = map Payload cs"
    by blast
  have "parseMIDIList buffer listStart hdr = parseMIDIList_loop buffer (length buffer) ?Z st'"
    unfolding parseMIDIList_def le using lt body le
    by (subst parseMIDIList_loop.simps) simp
  with cs' have "parseMIDIList buffer listStart hdr
      = Returns (\<lparr>DeltaTime = Millisecond * uint d, Payload = ?p\<rparr> # cs', None)"
    by (simp add: st'_def)
  moreover have "map Payload (\<lparr>DeltaTime = Millisecond * uint d, Payload = ?p\<rparr> # cs')
      = map Payload (c0 # cs)"
    using cs'(2) by simp
  ultimately show ?thesis by blast
qed

lemma Uint16_PutUint16: "Uint16 (PutUint16 v) = v"
  unfolding Uint16_def PutUint16_def
  by (rule bit_word_eqI) (auto simp: bit_simps)

lemma Uint32_PutUint32: "Uint32 (PutUint32 v) = v"
  unfolding Uint32_def PutUint32_def
  apply (rule bit_word_eqI)
  apply (auto simp: bit_simps)
  subgoal for n by (cases "24 \<le> n") simp_all
  done

lemma compact_header_decode:
  assumes h: "(header :: byte) = 0 \<or> header = 0x20" and n: "n \<le> 15"
  shows "\<not> ((header OR (of_nat n AND lenMask)) AND bigHeaderBit > 0)"
    and "((header OR (of_nat n AND lenMask)) AND zeroDeltaBit > 0) = (header = 0x20)"
    and "unat (ucast ((header OR (of_nat n AND lenMask)) AND lenMask) :: 16 word) = n"
proof -
  let ?h = "header OR (of_nat n AND lenMask)"
  from compact_header_bits(1) [OF h] show "\<not> (?h AND bigHeaderBit > 0)"
    by (simp add: lenMask_def bigHeaderBit_def)
  from compact_header_bits(3) [OF h] h show "(?h AND zeroDeltaBit > 0) = (header = 0x20)"
    by (auto simp: lenMask_def zeroDeltaBit_def)
  have "?h AND lenMask = of_nat n AND 0x0f"
    unfolding lenMask_def by (rule compact_header_bits(2) [OF h])
  also have "\<dots> = of_nat n" by (rule of_nat_low4 [OF n])
  finally have "unat (ucast (?h AND lenMask) :: 16 word) = unat (ucast (of_nat n :: byte) :: 16 word)"
    by simp
  also have "\<dots> = n" using n by (simp add: unsigned_ucast_eq unat_of_nat take_bit_nat_eq_self)
  finally show "unat (ucast (?h AND lenMask) :: 16 word) = n" .
qed

lemma len12_is_mask: "(0x0fff :: 16 word) = mask 12"
  by (simp add: mask_eq_exp_minus_1)

lemma len12_split:
  "(ucast (h1::byte) OR push_bit 8 (ucast (h0::byte))) AND (0x0fff :: 16 word)
     = ucast h1 OR push_bit 8 (ucast (h0 AND 0x0f))"
  unfolding len12_is_mask lenMask_is_mask
  by (rule bit_word_eqI) (auto simp: bit_simps dest: bit_imp_le_length)

lemma len12_join:
  "ucast (of_nat n :: byte) OR push_bit 8 (ucast (of_nat (drop_bit 8 n) :: byte))
     = (of_nat n :: 16 word)"
  apply (rule bit_word_eqI)
  apply (auto simp: bit_simps dest: bit_imp_le_length)
  done

lemma big_header_decode:
  assumes h: "(header :: byte) = 0 \<or> header = 0x20" and n: "n \<le> 4095"
  shows "(header OR bigHeaderBit OR (of_nat (n div 2 ^ 8) AND lenMask)) AND bigHeaderBit > 0"
    and "((header OR bigHeaderBit OR (of_nat (n div 2 ^ 8) AND lenMask)) AND zeroDeltaBit > 0)
           = (header = 0x20)"
    and "unat (Uint16 [header OR bigHeaderBit OR (of_nat (n div 2 ^ 8) AND lenMask), of_nat n]
               AND 0x0fff) = n"
proof -
  let ?h0 = "header OR bigHeaderBit OR (of_nat (n div 2 ^ 8) AND lenMask)"
  from big_header_bits(1) [OF h] show "?h0 AND bigHeaderBit > 0"
    by (simp add: lenMask_def bigHeaderBit_def)
  from big_header_bits(3) [OF h] h show "(?h0 AND zeroDeltaBit > 0) = (header = 0x20)"
    by (auto simp: lenMask_def zeroDeltaBit_def bigHeaderBit_def)
  have "n < 16 * 2 ^ 8" using n by simp
  then have "n div 2 ^ 8 < 16" by (simp only: less_mult_imp_div_less)
  then have d: "n div 2 ^ 8 \<le> 15" by simp
  have "(header OR 0x80 OR (of_nat (n div 2 ^ 8) AND 0x0f)) AND 0x0f
      = of_nat (n div 2 ^ 8) AND 0x0f"
    by (rule big_header_bits(2) [OF h])
  also have "\<dots> = of_nat (n div 2 ^ 8)" by (rule of_nat_low4 [OF d])
  finally have low: "?h0 AND 0x0f = of_nat (drop_bit 8 n)"
    unfolding lenMask_def bigHeaderBit_def by (simp only: drop_bit_eq_div)
  have "Uint16 [?h0, of_nat n] AND 0x0fff
      = (ucast (of_nat n :: byte) OR push_bit 8 (ucast ?h0)) AND 0x0fff"
    by (simp add: Uint16_def)
  also have "\<dots> = ucast (of_nat n :: byte) OR push_bit 8 (ucast (?h0 AND 0x0f))"
    by (rule len12_split)
  also have "\<dots> = of_nat n" unfolding low by (rule len12_join)
  finally have "unat (Uint16 [?h0, of_nat n] AND 0x0fff) = unat (of_nat n :: 16 word)"
    by simp
  also have "\<dots> = n" using n by (simp add: unat_of_nat)
  finally show "unat (Uint16 [?h0, of_nat n] AND 0x0fff) = n" .
qed

lemma decodeMIDIListHeader_compact:
  assumes H: "length H = 12" and h: "(header :: byte) = 0 \<or> header = 0x20"
    and n: "length b \<le> 15"
  shows "\<exists>hdr. decodeMIDIListHeader (H @ [header OR (of_nat (length b) AND lenMask)] @ b) spare
               = Returns (hdr, 13)
           \<and> preceedingDeltaTime hdr = (header = 0x20) \<and> unat (Len hdr) = length b"
  using H compact_header_decode [OF h n]
  by (simp add: decodeMIDIListHeader_def Let_def nth_append)

lemma decodeMIDIListHeader_big:
  assumes H: "length H = 12" and h: "(header :: byte) = 0 \<or> header = 0x20"
    and n: "length b \<le> 4095"
  shows "\<exists>hdr. decodeMIDIListHeader
                 (H @ [header OR bigHeaderBit OR (of_nat (length b div 2 ^ 8) AND lenMask),
                       of_nat (length b)] @ b) spare
               = Returns (hdr, 14)
           \<and> preceedingDeltaTime hdr = (header = 0x20) \<and> unat (Len hdr) = length b"
  using H big_header_decode [OF h n]
  by (simp add: decodeMIDIListHeader_def Let_def nth_append)

lemma Decode_after_header:
  assumes "12 \<le> length buffer" and "buffer ! 1 AND ptMask = payloadType"
    and "decodeMIDIListHeader buffer spare = Returns (midiListHeader, listStart)"
    and "parseMIDIList buffer listStart midiListHeader = Returns (commands, err)"
  shows "Decode now buffer spare
     = Returns (\<lparr>SequenceNumber = Uint16 (take 2 (drop 2 buffer)),
                 SSRC = Uint32 (take 4 (drop 8 buffer)),
                 MsgCommands = \<lparr>Timestamp = now, Commands = commands\<rparr>\<rparr>, None)"
  using assms by (simp add: Decode_def minimumBufferLength_def Valid_def Let_def)

text \<open>
  C1 as stated does not hold: a message may carry any bytes as a payload, and the
  encoder writes them as they are. The message below has one command with the payload
  \<open>0x90 0x40\<close>, a Note-On with one of its two data bytes. Its list body has two bytes;
  the decoder finds the second data byte missing and returns the message with no command.
\<close>

theorem Decode_Encode_roundtrip_counterexample:
  "MIDICommands_encode (\<lambda>t start d. [0x00])
       \<lparr>Timestamp = 0, Commands = [\<lparr>DeltaTime = 0, Payload = [0x90, 0x40]\<rparr>]\<rparr> 0
     = [0x02, 0x90, 0x40]
   \<and> Decode 0
       (Encode (\<lambda>t start. 0) (\<lambda>t start d. [0x00])
          \<lparr>SequenceNumber = 0x1234, SSRC = 0xdeadbeef,
           MsgCommands = \<lparr>Timestamp = 0,
             Commands = [\<lparr>DeltaTime = 0, Payload = [0x90, 0x40]\<rparr>]\<rparr>\<rparr> 0) []
     = Returns (\<lparr>SequenceNumber = 0x1234, SSRC = 0xdeadbeef,
                 MsgCommands = \<lparr>Timestamp = 0, Commands = []\<rparr>\<rparr>, None)"
  by code_simp

text \<open>
  C1, amended. Let every payload of the message be a complete command, let the delta-time
  encoder write complete varints, let the command list be non-empty and its encoded body be
  at most 4095 bytes. Then \<^verbatim>\<open>Decode\<close> of the encoded message returns a message and no
  error, with the sequence number and the SSRC of the original and, command for command,
  its payloads; the delta-times are those the delta-time encoder wrote.
\<close>

theorem Decode_Encode_roundtrip:
  assumes ne: "Commands (MsgCommands m) \<noteq> []"
    and cc: "\<forall>c \<in> set (Commands (MsgCommands m)). complete_command (Payload c)"
    and wfE: "\<forall>t s d. complete_varint (EncodeDeltaTime t s d)"
    and sz: "length (snd (encode_range EncodeDeltaTime (Timestamp (MsgCommands m)) start 0
                       (Commands (MsgCommands m)) (emtpyHeader, []))) \<le> 4095"
  shows "\<exists>msg. Decode now (Encode tsOf EncodeDeltaTime m start) spare = Returns (msg, None)
           \<and> SequenceNumber msg = SequenceNumber m \<and> SSRC msg = SSRC m
           \<and> map Payload (Commands (MsgCommands msg)) = map Payload (Commands (MsgCommands m))"
proof -
  from ne obtain c0 cs where cmds: "Commands (MsgCommands m) = c0 # cs"
    by (cases "Commands (MsgCommands m)") auto
  define ts where "ts = Timestamp (MsgCommands m)"
  define header :: byte where "header = (if DeltaTime c0 > 0 then 0x20 else 0)"
  define b where "b = (if DeltaTime c0 > 0 then EncodeDeltaTime ts start (DeltaTime c0) else [])
      @ Payload c0 @ encoded_rest EncodeDeltaTime ts start cs"
  have er: "encode_range EncodeDeltaTime ts start 0 (Commands (MsgCommands m)) (emtpyHeader, [])
      = (header, b)"
    unfolding cmds encode_range_first
    by (simp add: header_def b_def emtpyHeader_def zeroDeltaBit_def)
  have h: "header = 0 \<or> header = 0x20" by (simp add: header_def)
  have z: "(header = 0x20) = (DeltaTime c0 > 0)" by (simp add: header_def)
  from sz er have n: "length b \<le> 4095" by (simp add: ts_def)
  define H where "H = [firstByte, secondByte] @ PutUint16 (SequenceNumber m)
      @ PutUint32 (tsOf (Timestamp (MsgCommands m)) start) @ PutUint32 (SSRC m)"
  have H: "length H = 12" by (simp add: H_def PutUint16_def PutUint32_def)
  have pt: "H ! 1 AND ptMask = payloadType"
    by (simp add: H_def secondByte_def payloadType_def ptMask_def)
  have seq: "take 2 (drop 2 H) = PutUint16 (SequenceNumber m)"
    by (simp add: H_def PutUint16_def)
  have ssrc: "take 4 (drop 8 H) = PutUint32 (SSRC m)"
    by (simp add: H_def PutUint16_def PutUint32_def)
  define hs where "hs = (if length b > 15
      then [header OR bigHeaderBit OR (of_nat (length b div 2 ^ 8) AND lenMask), of_nat (length b)]
      else [header OR (of_nat (length b) AND lenMask)])"
  have enc: "Encode tsOf EncodeDeltaTime m start = H @ hs @ b"
    using er n ne by (simp add: Encode_def MIDICommands_encode_def H_def hs_def ts_def)
  obtain hdr listStart where dh: "decodeMIDIListHeader (H @ hs @ b) spare = Returns (hdr, listStart)"
    and Z: "preceedingDeltaTime hdr = (DeltaTime c0 > 0)" and len: "unat (Len hdr) = length b"
    and ls: "listStart = 12 + length hs"
  proof (cases "length b > 15")
    case True
    from decodeMIDIListHeader_big [OF H h n, of spare] True z that show ?thesis
      by (auto simp: hs_def)
  next
    case False
    then have "length b \<le> 15" by simp
    from decodeMIDIListHeader_compact [OF H h this, of spare] False z that show ?thesis
      by (auto simp: hs_def)
  qed
  have dr: "drop listStart (H @ hs @ b) = b" using ls H by simp
  have le: "listStart + unat (Len hdr) = length (H @ hs @ b)" using ls H len by simp
  from cc cmds have cc': "\<forall>c \<in> set (c0 # cs). complete_command (Payload c)" by simp
  have dr': "drop listStart (H @ hs @ b)
      = (if DeltaTime c0 > 0 then EncodeDeltaTime ts start (DeltaTime c0) else [])
        @ Payload c0 @ encoded_rest EncodeDeltaTime ts start cs"
    unfolding dr by (rule b_def)
  from parseMIDIList_encoded_list [OF wfE cc' dr' le Z]
  obtain cs' where parse: "parseMIDIList (H @ hs @ b) listStart hdr = Returns (cs', None)"
    and pay: "map Payload cs' = map Payload (c0 # cs)"
    by blast
  have "take 2 (drop 2 (H @ hs @ b)) = take 2 (drop 2 H)" using H by simp
  then have s2: "take 2 (drop 2 (H @ hs @ b)) = PutUint16 (SequenceNumber m)"
    by (simp only: seq)
  have "take 4 (drop 8 (H @ hs @ b)) = take 4 (drop 8 H)" using H by simp
  then have s4: "take 4 (drop 8 (H @ hs @ b)) = PutUint32 (SSRC m)"
    by (simp only: ssrc)
  have "12 \<le> length (H @ hs @ b)" using H by simp
  moreover have "(H @ hs @ b) ! 1 AND ptMask = payloadType" using pt H by (simp add: nth_append)
  ultimately have "Decode now (H @ hs @ b) spare
     = Returns (\<lparr>SequenceNumber = Uint16 (take 2 (drop 2 (H @ hs @ b))),
                 SSRC = Uint32 (take 4 (drop 8 (H @ hs @ b))),
                 MsgCommands = \<lparr>Timestamp = now, Commands = cs'\<rparr>\<rparr>, None)"
    using dh parse by (rule Decode_after_header)
  then have "Decode now (Encode tsOf EncodeDeltaTime m start) spare
     = Returns (\<lparr>SequenceNumber = SequenceNumber m, SSRC = SSRC m,
                 MsgCommands = \<lparr>Timestamp = now, Commands = cs'\<rparr>\<rparr>, None)"
    by (simp only: s2 s4 Uint16_PutUint16 Uint32_PutUint32 enc)
  then show ?thesis
    using pay cmds by simp
qed

theorem Decode_Encode_roundtrip_witness:
  "\<exists>msg. Decode 5
       (Encode (\<lambda>t start. 0) (\<lambda>t start d. [0x81, 0x00])
          \<lparr>SequenceNumber = 0x1234, SSRC = 0xdeadbeef,
           MsgCommands = \<lparr>Timestamp = 1,
             Commands = [\<lparr>DeltaTime = 128000000, Payload = [0x90, 0x40, 0x7f]\<rparr>,
                         \<lparr>DeltaTime = 128000000, Payload = [0xf0, 0x01, 0xf7]\<rparr>]\<rparr>\<rparr> 0) []
       = Returns (msg, None)
     \<and> SequenceNumber msg = 0x1234 \<and> SSRC msg = 0xdeadbeef
     \<and> map Payload (Commands (MsgCommands msg)) = [[0x90, 0x40, 0x7f], [0xf0, 0x01, 0xf7]]"
proof -
  let ?E = "\<lambda>(t::Time) (start::Time) (d::Duration). [0x81, 0x00 :: byte]"
  let ?m = "\<lparr>SequenceNumber = 0x1234, SSRC = 0xdeadbeef,
           MsgCommands = \<lparr>Timestamp = 1,
             Commands = [\<lparr>DeltaTime = 128000000, Payload = [0x90, 0x40, 0x7f]\<rparr>,
                         \<lparr>DeltaTime = 128000000, Payload = [0xf0, 0x01, 0xf7]\<rparr>]\<rparr>\<rparr>"
  have ne: "Commands (MsgCommands ?m) \<noteq> []" by simp
  have cc: "\<forall>c \<in> set (Commands (MsgCommands ?m)). complete_command (Payload c)"
    by (simp add: complete_command_def GetDataLength_def GetCommandInfo_def commandsInfos_def)
  have wfE: "\<forall>t s d. complete_varint (?E t s d)"
    by (simp add: complete_varint_def)
  have sz: "length (snd (encode_range ?E (Timestamp (MsgCommands ?m)) 0 0
                       (Commands (MsgCommands ?m)) (emtpyHeader, []))) \<le> 4095"
    by (simp add: MIDIPayload_encode_def)
  from Decode_Encode_roundtrip [OF ne cc wfE sz, of 5 "\<lambda>t start. 0" "[]"]
  show ?thesis by simp
qed

end
